theory Spec2Isabelle
  imports Complex_Main
begin

section \<open>Rounding to double precision\<close>

text \<open>
  \<open>rne\<close> rounds a real number to the nearest integer, a tie going to the even
  one.  \<open>fl\<close> rounds to the nearest number with a significand of 53 bits, ties to
  even, which is the result of an IEEE binary64 operation in the default
  rounding mode.  The exponent is not bounded: overflow, underflow and
  subnormal numbers are outside the model.
\<close>

definition rne :: "real \<Rightarrow> int" where
  "rne q =
     (let f = \<lfloor>q\<rfloor>; d = q - of_int f
      in if d < 1 / 2 then f else if d > 1 / 2 then f + 1 else if even f then f else f + 1)"

definition fl :: "real \<Rightarrow> real" where
  "fl x =
     (if x = 0 then 0
      else
        let e = \<lfloor>log 2 \<bar>x\<bar>\<rfloor> - 52
        in sgn x * (of_int (rne (\<bar>x\<bar> / 2 powi e)) * 2 powi e))"


section \<open>Calibration lookup and significance test\<close>

text \<open>The functions of this section are those of the file \<^verbatim>\<open>t_test_after.cpp\<close>.\<close>

text \<open>
  A finite C++ \<open>double\<close> is modelled as the real number it denotes.  Where the
  result of an operation decides which row is nearest, which rows lie in a
  window, or is subject to cancellation (the one-pass variance), the operation
  is followed by the rounding \<open>fl\<close> to the nearest double.  The sums and
  quotients of the window extractor and the arithmetic of the significance test
  are taken exactly.  The one place where the extractor divides by zero (a
  window mean \<open>0.0 / 0\<close>) is modelled explicitly further below.
\<close>

record PupilData =
  luminance :: real
  avgSize :: real
  count :: int
  stdDev :: real

text \<open>
  A \<open>std::map<double, PupilData>\<close> is an association list whose keys are
  strictly increasing, which is the order in which the map's iterators visit it.
\<close>

type_synonym lum_map = "(real \<times> PupilData) list"

definition sorted_keys :: "lum_map \<Rightarrow> bool" where
  "sorted_keys m = sorted_wrt (<) (map fst m)"

text \<open>\<open>mapping[k] = v\<close>: insert in key order, overwriting an equal key.\<close>

fun map_assign :: "real \<Rightarrow> PupilData \<Rightarrow> lum_map \<Rightarrow> lum_map" where
  "map_assign k v [] = [(k, v)]"
| "map_assign k v ((k', v') # m) =
     (if k < k' then (k, v) # (k', v') # m
      else if k = k' then (k, v) # m
      else (k', v') # map_assign k v m)"

text \<open>
  One data line of a mapping file, as \<open>readLuminanceMapping\<close> reads it with
  \<open>>>\<close>: luminance avgLeft leftCount leftStd avgRight rightCount rightStd.
  The counts are read as doubles and cast to \<open>int\<close>: truncation towards zero
  for a value whose truncation is a 32-bit \<open>int\<close>.  For any other value the
  cast is undefined in C++; the conversion instruction of x86-64 yields the
  smallest \<open>int\<close>, which is the value taken here.
\<close>

type_synonym mapping_line = "real \<times> real \<times> real \<times> real \<times> real \<times> real \<times> real"

definition trunc_int :: "real \<Rightarrow> int" where
  "trunc_int x =
     (if - (2 ^ 31) - 1 < x \<and> x < 2 ^ 31 then (if 0 \<le> x then \<lfloor>x\<rfloor> else \<lceil>x\<rceil>)
      else - (2 ^ 31))"

fun readLuminanceMapping :: "mapping_line list \<Rightarrow> lum_map \<times> lum_map \<Rightarrow> lum_map \<times> lum_map" where
  "readLuminanceMapping [] acc = acc"
| "readLuminanceMapping ((lum, avgLeft, leftCount, leftStd, avgRight, rightCount, rightStd) # ls)
       (leftMapping, rightMapping) =
     readLuminanceMapping ls
       (map_assign lum \<lparr>luminance = lum, avgSize = avgLeft, count = trunc_int leftCount, stdDev = leftStd\<rparr> leftMapping,
        map_assign lum \<lparr>luminance = lum, avgSize = avgRight, count = trunc_int rightCount, stdDev = rightStd\<rparr> rightMapping)"

definition invalid_row :: PupilData where
  "invalid_row = \<lparr>luminance = -1, avgSize = -1, count = -1, stdDev = -1\<rparr>"

text \<open>
  \<open>lower_bound(targetLum)\<close> is the first entry whose key is not below the
  target: the entries before it are \<open>takeWhile\<close>, the iterator and what
  follows it are \<open>dropWhile\<close>; \<open>prev(it)\<close> is the last entry before it.  The two
  differences that are compared are doubles: each subtraction is rounded.
\<close>

definition getClosestLuminanceMatch :: "lum_map \<Rightarrow> real \<Rightarrow> PupilData" where
  "getClosestLuminanceMatch mapping targetLum =
     (if mapping = [] then invalid_row
      else
        let below = takeWhile (\<lambda>p. fst p < targetLum) mapping;
            it = dropWhile (\<lambda>p. fst p < targetLum) mapping
        in if it = [] then snd (last below)
           else if below = [] then snd (hd it)
           else
             let lower = last below
             in if \<bar>fl (fst lower - targetLum)\<bar> < \<bar>fl (fst (hd it) - targetLum)\<bar>
                then snd lower else snd (hd it))"

text \<open>
  \<open>computeTTest\<close>, in exact arithmetic.  The CDF of Student's t distribution
  comes from the Boost library; it is the parameter \<open>cdf\<close>, applied to the
  degrees of freedom and the point.
\<close>

definition computeTTest ::
  "(int \<Rightarrow> real \<Rightarrow> real) \<Rightarrow> real \<Rightarrow> real \<Rightarrow> int \<Rightarrow> real \<Rightarrow> real \<Rightarrow> int \<Rightarrow> real" where
  "computeTTest cdf mean1 std1 n1 mean2 std2 n2 =
     (if n1 < 2 \<or> n2 < 2 then -1
      else
        let pooledVar = std1 ^ 2 / of_int n1 + std2 ^ 2 / of_int n2
        in if pooledVar = 0 then -1
           else
             let tScore = (mean1 - mean2) / sqrt pooledVar;
                 df = min n1 n2 - 1
             in 2 * (1 - cdf df \<bar>tScore\<bar>))"

section \<open>Summary statistics (luminance.cpp, pupilsizecal.cpp)\<close>







section \<open>Window extractor (noshookpupil.cpp, shookpupil.cpp)\<close>

subsection \<open>Values and failures\<close>

text \<open>
  A \<open>double\<close> that is the result of a division: finite, infinite, or not a
  number.  Dividing by zero does not trap in C++; \<open>0.0 / 0\<close> is NaN.
\<close>

datatype dbl = Fin real | PInf | NInf | NaN

definition ddiv :: "real \<Rightarrow> real \<Rightarrow> dbl" where
  "ddiv a b =
     (if b \<noteq> 0 then Fin (a / b)
      else if a = 0 then NaN
      else if a > 0 then PInf else NInf)"

text \<open>Comparisons with zero; every comparison with NaN is false.\<close>

fun dlt0 :: "dbl \<Rightarrow> bool" where
  "dlt0 (Fin a) = (a < 0)"
| "dlt0 NInf = True"
| "dlt0 PInf = False"
| "dlt0 NaN = False"

fun dgt0 :: "dbl \<Rightarrow> bool" where
  "dgt0 (Fin a) = (a > 0)"
| "dgt0 PInf = True"
| "dgt0 NInf = False"
| "dgt0 NaN = False"

text \<open>
  Ways in which a run leaves the modelled path: a \<open>vector::operator[]\<close>
  outside the vector (undefined behaviour in C++), and \<open>stod\<close> throwing with
  no handler around it.
\<close>

datatype error = OutOfRange | StodThrow

type_synonym row = "string list"
type_synonym table = "row list"

text \<open>
  \<open>v[i]\<close> with a signed or floating index \<open>i\<close>: a negative index is
  converted to an unsigned one above every vector size.
\<close>

definition at_index :: "'a list \<Rightarrow> int \<Rightarrow> error + 'a" where
  "at_index v i = (if 0 \<le> i \<and> i < int (length v) then Inr (v ! nat i) else Inl OutOfRange)"

subsection \<open>Strings\<close>

fun starts_with :: "string \<Rightarrow> string \<Rightarrow> bool" where
  "starts_with s [] = True"
| "starts_with [] (p # ps) = False"
| "starts_with (c # cs) (p # ps) = (c = p \<and> starts_with cs ps)"

text \<open>\<open>s.find(pat) != string::npos\<close>\<close>

fun contains :: "string \<Rightarrow> string \<Rightarrow> bool" where
  "contains [] pat = (pat = [])"
| "contains (c # cs) pat = (starts_with (c # cs) pat \<or> contains cs pat)"

definition isspace :: "char \<Rightarrow> bool" where
  "isspace c = (c \<in> {CHR '' '', CHR 0x09, CHR 0x0A, CHR 0x0B, CHR 0x0C, CHR 0x0D})"

definition trim :: "string \<Rightarrow> string" where
  "trim str = rev (dropWhile isspace (rev (dropWhile isspace str)))"

subsection \<open>Column and event location\<close>

fun findPupilColumns_loop :: "row \<Rightarrow> int \<Rightarrow> int \<times> int \<Rightarrow> int \<times> int" where
  "findPupilColumns_loop [] i cols = cols"
| "findPupilColumns_loop (c # cs) i (leftPupilCol, rightPupilCol) =
     (let trimmedCell = trim c
      in findPupilColumns_loop cs (i + 1)
           (if contains trimmedCell ''leftPupil'' then i else leftPupilCol,
            if contains trimmedCell ''rightPupil'' then i else rightPupilCol))"

definition findPupilColumns :: "row \<Rightarrow> int \<times> int" where
  "findPupilColumns headerRow = findPupilColumns_loop headerRow 0 (-1, -1)"

fun findEventRow_loop :: "table \<Rightarrow> int \<Rightarrow> int" where
  "findEventRow_loop [] i = -1"
| "findEventRow_loop (r # rs) i =
     (if list_ex (\<lambda>cell. contains cell ''0.2 seconds'') r then i
      else findEventRow_loop rs (i + 1))"

definition findEventRow :: "table \<Rightarrow> int" where
  "findEventRow data = findEventRow_loop (drop 1 data) 1"

text \<open>
  \<open>findEventRows\<close> of shookpupil.cpp.  In \<open>data[i].size() <= eventColumn\<close>
  the column is converted to an unsigned number, so a negative column skips
  every row.
\<close>

fun findEventRows_loop :: "table \<Rightarrow> int \<Rightarrow> int \<Rightarrow> int \<times> int \<Rightarrow> int \<times> int" where
  "findEventRows_loop [] eventColumn i rows = rows"
| "findEventRows_loop (r # rs) eventColumn i (rowFor02, rowForShook) =
     (if eventColumn < 0 \<or> int (length r) \<le> eventColumn
      then findEventRows_loop rs eventColumn (i + 1) (rowFor02, rowForShook)
      else
        let eventColumnValue = r ! nat eventColumn;
            rowFor02' = (if contains eventColumnValue ''0.2 seconds'' \<and> rowFor02 = -1
                         then i else rowFor02);
            rowForShook' = (if contains eventColumnValue ''shook'' \<and> rowForShook = -1
                            then i else rowForShook)
        in if rowFor02' \<noteq> -1 \<and> rowForShook' \<noteq> -1 then (rowFor02', rowForShook')
           else findEventRows_loop rs eventColumn (i + 1) (rowFor02', rowForShook'))"

definition findEventRows :: "table \<Rightarrow> int \<Rightarrow> int \<times> int" where
  "findEventRows data eventColumn = findEventRows_loop (drop 1 data) eventColumn 1 (-1, -1)"

subsection \<open>Standard deviation and window accumulation\<close>

text \<open>
  \<open>calculateStdDev\<close>; the mean it is given is a reported window mean.  With an
  infinite mean every squared distance is infinite, with NaN it is NaN.
\<close>

definition calculateStdDev :: "real list \<Rightarrow> dbl \<Rightarrow> dbl" where
  "calculateStdDev values mean =
     (if length values < 2 then Fin (-1)
      else
        case mean of
          Fin m \<Rightarrow>
            Fin (sqrt (fold (\<lambda>val variance. variance + (val - m) ^ 2) values 0
                        / real (length values - 1)))
        | PInf \<Rightarrow> PInf
        | NInf \<Rightarrow> PInf
        | NaN \<Rightarrow> NaN)"

text \<open>
  The accumulators of one window.  The source keeps one set of them with the
  suffix \<open>Before\<close> and one with the suffix \<open>After\<close>:
  \<open>sumLeft*\<close>, \<open>leftcount*\<close>, the vector \<open>left*\<close>, the same for the right eye,
  the luminance sum \<open>luminance*\<close> and \<open>luminance*cnt\<close>, and the row counter
  \<open>*count\<close>.  The counters are doubles in the source and only ever incremented.
\<close>

record window =
  sumLeft :: real
  leftcount :: nat
  leftvec :: "real list"
  sumRight :: real
  rightcount :: nat
  rightvec :: "real list"
  luminancesum :: real
  luminancecnt :: nat
  rowcount :: nat

definition window_init :: window where
  "window_init = \<lparr>sumLeft = 0, leftcount = 0, leftvec = [], sumRight = 0, rightcount = 0,
     rightvec = [], luminancesum = 0, luminancecnt = 0, rowcount = 0\<rparr>"

text \<open>The body of one of the two \<open>if (timeValue >= ... && timeValue <= ...)\<close> blocks.\<close>

definition accumulate :: "real \<Rightarrow> real \<Rightarrow> real \<Rightarrow> window \<Rightarrow> window" where
  "accumulate leftPupilSize rightPupilSize lum w =
     (let w1 = (if leftPupilSize > 0
                then w\<lparr>sumLeft := sumLeft w + leftPupilSize, leftcount := leftcount w + 1,
                       leftvec := leftvec w @ [leftPupilSize]\<rparr>
                else w);
          w2 = (if rightPupilSize > 0
                then w1\<lparr>sumRight := sumRight w1 + rightPupilSize, rightcount := rightcount w1 + 1,
                        rightvec := rightvec w1 @ [rightPupilSize]\<rparr>
                else w1);
          w3 = (if lum > 0
                then w2\<lparr>luminancesum := luminancesum w2 + lum, luminancecnt := luminancecnt w2 + 1\<rparr>
                else w2)
      in w3\<lparr>rowcount := rowcount w3 + 1\<rparr>)"

text \<open>
  The head of the loop body: the length test and the \<open>try\<close> block.  \<open>stod\<close> is
  the standard library's conversion, a parameter of the model: \<open>None\<close> when it
  throws; a cell that it would convert to an infinity or to NaN is outside the
  model.  \<open>Inr None\<close> is \<open>continue\<close>.  In the length test a negative
  \<open>max(leftPupilCol, rightPupilCol)\<close> is converted to an unsigned number above
  every row length.  The luminance column is \<open>leftPupilCol - 1\<close>.
\<close>

definition read_row ::
  "(string \<Rightarrow> real option) \<Rightarrow> int \<Rightarrow> int \<Rightarrow> int \<Rightarrow> row
     \<Rightarrow> error + (real \<times> real \<times> real \<times> real) option" where
  "read_row stod timeCol leftPupilCol rightPupilCol r =
     (if max leftPupilCol rightPupilCol < 0 \<or> int (length r) \<le> max leftPupilCol rightPupilCol
      then Inr None
      else
        case at_index r timeCol of Inl e \<Rightarrow> Inl e | Inr c0 \<Rightarrow>
        (case stod c0 of None \<Rightarrow> Inr None | Some timeValue \<Rightarrow>
        (case at_index r leftPupilCol of Inl e \<Rightarrow> Inl e | Inr c1 \<Rightarrow>
        (case stod c1 of None \<Rightarrow> Inr None | Some leftPupilSize \<Rightarrow>
        (case at_index r rightPupilCol of Inl e \<Rightarrow> Inl e | Inr c2 \<Rightarrow>
        (case stod c2 of None \<Rightarrow> Inr None | Some rightPupilSize \<Rightarrow>
        (case at_index r (leftPupilCol - 1) of Inl e \<Rightarrow> Inl e | Inr c3 \<Rightarrow>
        (case stod c3 of None \<Rightarrow> Inr None | Some lum \<Rightarrow>
           Inr (Some (timeValue, leftPupilSize, rightPupilSize, lum))))))))))"

text \<open>
  The rest of the loop body.  The bounds \<open>beforeTime - 5.0\<close> and
  \<open>afterTime + 5.0\<close> with which the time is compared are doubles: the
  subtraction and the addition are rounded.
\<close>

definition row_step ::
  "(string \<Rightarrow> real option) \<Rightarrow> int \<Rightarrow> int \<Rightarrow> int \<Rightarrow> real \<Rightarrow> real \<Rightarrow> row
     \<Rightarrow> window \<times> window \<Rightarrow> error + window \<times> window" where
  "row_step stod timeCol leftPupilCol rightPupilCol beforeTime afterTime r ws =
     (case read_row stod timeCol leftPupilCol rightPupilCol r of
        Inl e \<Rightarrow> Inl e
      | Inr None \<Rightarrow> Inr ws
      | Inr (Some (timeValue, leftPupilSize, rightPupilSize, lum)) \<Rightarrow>
          Inr (if timeValue \<ge> fl (beforeTime - 5) \<and> timeValue \<le> beforeTime
               then accumulate leftPupilSize rightPupilSize lum (fst ws) else fst ws,
               if timeValue \<ge> afterTime \<and> timeValue \<le> fl (afterTime + 5)
               then accumulate leftPupilSize rightPupilSize lum (snd ws) else snd ws))"

fun extract_loop ::
  "(string \<Rightarrow> real option) \<Rightarrow> int \<Rightarrow> int \<Rightarrow> int \<Rightarrow> real \<Rightarrow> real \<Rightarrow> table
     \<Rightarrow> window \<times> window \<Rightarrow> error + window \<times> window" where
  "extract_loop stod timeCol leftPupilCol rightPupilCol beforeTime afterTime [] ws = Inr ws"
| "extract_loop stod timeCol leftPupilCol rightPupilCol beforeTime afterTime (r # rs) ws =
     (case row_step stod timeCol leftPupilCol rightPupilCol beforeTime afterTime r ws of
        Inl e \<Rightarrow> Inl e
      | Inr ws' \<Rightarrow> extract_loop stod timeCol leftPupilCol rightPupilCol beforeTime afterTime rs ws')"

text \<open>\<open>(cnt >= rows * 0.5) ? s / cnt : -1\<close>\<close>

definition window_avg :: "nat \<Rightarrow> nat \<Rightarrow> real \<Rightarrow> dbl" where
  "window_avg cnt rows s =
     (if real cnt \<ge> real rows * 0.5 then ddiv s (real cnt) else Fin (-1))"

text \<open>
  The six averages and the returned vector of fourteen numbers.  Its last
  entry is written as in the source, from \<open>rightbefore\<close> and \<open>avgRightBefore\<close>.
\<close>

definition window_report :: "window \<Rightarrow> window \<Rightarrow> dbl list" where
  "window_report b a =
     (let avgLeftBefore = window_avg (leftcount b) (rowcount b) (sumLeft b);
          avgRightBefore = window_avg (rightcount b) (rowcount b) (sumRight b);
          avgLeftAfter = window_avg (leftcount a) (rowcount a) (sumLeft a);
          avgRightAfter = window_avg (rightcount a) (rowcount a) (sumRight a);
          avgluminancebefore = window_avg (luminancecnt b) (rowcount b) (luminancesum b);
          avgluminanceafter = window_avg (luminancecnt a) (rowcount a) (luminancesum a)
      in [avgluminancebefore,
          avgLeftBefore, Fin (real (length (leftvec b))), calculateStdDev (leftvec b) avgLeftBefore,
          avgRightBefore, Fin (real (length (rightvec b))), calculateStdDev (rightvec b) avgRightBefore,
          avgluminanceafter,
          avgLeftAfter, Fin (real (length (leftvec a))), calculateStdDev (leftvec a) avgLeftAfter,
          avgRightAfter, Fin (real (length (rightvec a))), calculateStdDev (rightvec b) avgRightBefore])"

text \<open>The time cell of an event row, read outside any \<open>try\<close> block.\<close>

definition event_time :: "(string \<Rightarrow> real option) \<Rightarrow> table \<Rightarrow> int \<Rightarrow> int \<Rightarrow> error + real" where
  "event_time stod data rowIdx timeCol =
     (case at_index data rowIdx of Inl e \<Rightarrow> Inl e | Inr r \<Rightarrow>
      (case at_index r timeCol of Inl e \<Rightarrow> Inl e | Inr c \<Rightarrow>
       (case stod c of None \<Rightarrow> Inl StodThrow | Some t \<Rightarrow> Inr t)))"

text \<open>
  \<open>calculatePupilAverages\<close> of noshookpupil.cpp (single-event protocol).  The
  constant \<open>0.229\<close> is the double nearest to it, and the sum is rounded.
\<close>

definition calculatePupilAverages_noshook ::
  "(string \<Rightarrow> real option) \<Rightarrow> table \<Rightarrow> int \<Rightarrow> int \<Rightarrow> int \<Rightarrow> int \<Rightarrow> error + dbl list" where
  "calculatePupilAverages_noshook stod data timeCol leftPupilCol rightPupilCol eventRow =
     (if eventRow = -1 then Inr [Fin (-1), Fin (-1), Fin (-1), Fin (-1)]
      else
        case event_time stod data eventRow timeCol of Inl e \<Rightarrow> Inl e | Inr tagTime \<Rightarrow>
          (let eventTime = fl (tagTime + fl 0.229);
               beforeTime = tagTime
           in (case extract_loop stod timeCol leftPupilCol rightPupilCol beforeTime eventTime
                     (drop 1 data) (window_init, window_init) of
                 Inl e \<Rightarrow> Inl e
               | Inr (b, a) \<Rightarrow> Inr (window_report b a))))"

text \<open>\<open>calculatePupilAverages\<close> of shookpupil.cpp (dual-event protocol).\<close>

definition calculatePupilAverages_shook ::
  "(string \<Rightarrow> real option) \<Rightarrow> table \<Rightarrow> int \<Rightarrow> int \<Rightarrow> int \<Rightarrow> int \<Rightarrow> int \<Rightarrow> error + dbl list" where
  "calculatePupilAverages_shook stod data timeCol leftPupilCol rightPupilCol rowFor02 rowForShook =
     (case event_time stod data rowFor02 timeCol of Inl e \<Rightarrow> Inl e | Inr beforeTime \<Rightarrow>
      (case event_time stod data rowForShook timeCol of Inl e \<Rightarrow> Inl e | Inr timeAfter \<Rightarrow>
       (case extract_loop stod timeCol leftPupilCol rightPupilCol beforeTime timeAfter
               (drop 1 data) (window_init, window_init) of
          Inl e \<Rightarrow> Inl e
        | Inr (b, a) \<Rightarrow> Inr (window_report b a))))"

subsection \<open>The per-file loop of \<open>main\<close>\<close>

text \<open>
  One line of \<open>leftpupil.txt\<close> or \<open>rightpupil.txt\<close>, with the parameter
  names of \<open>saveVectorToFile\<close>.
\<close>

record summary_line =
  line_index :: real
  luminancebefore :: dbl
  pupilbefore :: dbl
  beforecnt :: dbl
  beforesd :: dbl
  luminanceafter :: dbl
  pupilafter :: dbl
  aftercnt :: dbl
  aftersd :: dbl

text \<open>The per-subject error lines that shookpupil.cpp prints while it scans.\<close>

datatype message =
    CouldNotLoad string
  | PupilColumnNotFound string
  | EventColumnNotFound string
  | EventNotFound string

text \<open>
  What the loop of \<open>main\<close> changes: the two summary files (opened in append
  mode by \<open>saveVectorToFile\<close>), the set \<open>missingEventIndices\<close> that the final
  report lists, the counters, the list \<open>invalidluminance\<close> and the error lines
  on the console.  The running sums of the averages, which only feed the
  console totals, are left out.
\<close>

record report =
  leftpupil_txt :: "summary_line list"
  rightpupil_txt :: "summary_line list"
  missingEventIndices :: "string set"
  validleftcnt :: nat
  validrightcnt :: nat
  invalidluminance :: "string list"
  console :: "message list"

definition report_init :: report where
  "report_init = \<lparr>leftpupil_txt = [], rightpupil_txt = [], missingEventIndices = {},
     validleftcnt = 0, validrightcnt = 0, invalidluminance = [], console = []\<rparr>"

text \<open>
  The part of the loop body after \<open>calculatePupilAverages\<close>, the same in both
  programs.  \<open>stod(fileIndex)\<close> is evaluated, with no handler, only when a line
  is saved.
\<close>

definition save_eyes :: "(string \<Rightarrow> real option) \<Rightarrow> string \<Rightarrow> dbl list \<Rightarrow> report \<Rightarrow> error + report" where
  "save_eyes stod fileIndex datalist st =
     (if dgt0 (datalist ! 0) \<or> dgt0 (datalist ! 7) then
        (case (if dlt0 (datalist ! 1) \<or> dlt0 (datalist ! 8) then Inr st
               else (case stod fileIndex of None \<Rightarrow> Inl StodThrow | Some idx \<Rightarrow>
                 Inr (st\<lparr>validleftcnt := validleftcnt st + 1,
                      leftpupil_txt := leftpupil_txt st @
                        [\<lparr>line_index = idx, luminancebefore = datalist ! 0, pupilbefore = datalist ! 1,
                          beforecnt = datalist ! 2, beforesd = datalist ! 3,
                          luminanceafter = datalist ! 7, pupilafter = datalist ! 8,
                          aftercnt = datalist ! 9, aftersd = datalist ! 10\<rparr>]\<rparr>))) of
           Inl e \<Rightarrow> Inl e
         | Inr st1 \<Rightarrow>
             (if dlt0 (datalist ! 4) \<or> dlt0 (datalist ! 11) then Inr st1
              else (case stod fileIndex of None \<Rightarrow> Inl StodThrow | Some idx \<Rightarrow>
                Inr (st1\<lparr>validrightcnt := validrightcnt st1 + 1,
                     rightpupil_txt := rightpupil_txt st1 @
                       [\<lparr>line_index = idx, luminancebefore = datalist ! 0, pupilbefore = datalist ! 4,
                         beforecnt = datalist ! 5, beforesd = datalist ! 6,
                         luminanceafter = datalist ! 7, pupilafter = datalist ! 11,
                         aftercnt = datalist ! 12, aftersd = datalist ! 13\<rparr>]\<rparr>))))
      else Inr (st\<lparr>invalidluminance := invalidluminance st @ [fileIndex]\<rparr>))"

text \<open>
  The loop body of noshookpupil.cpp for one CSV file: its name and the table
  \<open>loadCSV\<close> returned.
\<close>

definition process_file_noshook ::
  "(string \<Rightarrow> real option) \<Rightarrow> string \<times> table \<Rightarrow> report \<Rightarrow> error + report" where
  "process_file_noshook stod file st =
     (let fileName = fst file; data = snd file; fileIndex = take 5 fileName
      in if data = [] then Inr st
         else
           let pupilColumns = findPupilColumns (hd data);
               eventRow = findEventRow data
           in if eventRow = -1
              then Inr (st\<lparr>missingEventIndices := insert fileIndex (missingEventIndices st)\<rparr>)
              else (case calculatePupilAverages_noshook stod data 0 (fst pupilColumns)
                           (snd pupilColumns) eventRow of
                      Inl e \<Rightarrow> Inl e
                    | Inr datalist \<Rightarrow> save_eyes stod fileIndex datalist st))"

text \<open>The search for the "robotEvent" header cell, with its \<open>break\<close>.\<close>

fun eventColumn_loop :: "row \<Rightarrow> int \<Rightarrow> int" where
  "eventColumn_loop [] i = -1"
| "eventColumn_loop (c # cs) i =
     (if contains (trim c) ''robotEvent'' then i else eventColumn_loop cs (i + 1))"

text \<open>The loop body of shookpupil.cpp.\<close>

definition process_file_shook ::
  "(string \<Rightarrow> real option) \<Rightarrow> string \<times> table \<Rightarrow> report \<Rightarrow> error + report" where
  "process_file_shook stod file st =
     (let fileName = fst file; data = snd file; fileIndex = take 5 fileName
      in if data = [] then Inr (st\<lparr>console := console st @ [CouldNotLoad fileIndex]\<rparr>)
         else
           let pupilColumns = findPupilColumns (hd data)
           in if fst pupilColumns = -1 \<or> snd pupilColumns = -1
              then Inr (st\<lparr>console := console st @ [PupilColumnNotFound fileIndex]\<rparr>)
              else
                let eventColumn = eventColumn_loop (hd data) 0
                in if eventColumn = -1
                   then Inr (st\<lparr>console := console st @ [EventColumnNotFound fileIndex]\<rparr>)
                   else
                     let eventRows = findEventRows data eventColumn
                     in if fst eventRows = -1 \<or> snd eventRows = -1
                        then Inr (st\<lparr>console := console st @ [EventNotFound fileIndex]\<rparr>)
                        else (case calculatePupilAverages_shook stod data 0 (fst pupilColumns)
                                     (snd pupilColumns) (fst eventRows) (snd eventRows) of
                                Inl e \<Rightarrow> Inl e
                              | Inr datalist \<Rightarrow> save_eyes stod fileIndex datalist st))"

text \<open>The loop over the CSV files of the folder, stopping where a run aborts.\<close>

fun main_loop ::
  "(string \<times> table \<Rightarrow> report \<Rightarrow> error + report) \<Rightarrow> (string \<times> table) list \<Rightarrow> report
     \<Rightarrow> error + report" where
  "main_loop body [] st = Inr st"
| "main_loop body (f # fs) st =
     (case body f st of Inl e \<Rightarrow> Inl e | Inr st' \<Rightarrow> main_loop body fs st')"

definition main_noshook :: "(string \<Rightarrow> real option) \<Rightarrow> (string \<times> table) list \<Rightarrow> error + report" where
  "main_noshook stod files = main_loop (process_file_noshook stod) files report_init"

definition main_shook :: "(string \<Rightarrow> real option) \<Rightarrow> (string \<times> table) list \<Rightarrow> error + report" where
  "main_shook stod files = main_loop (process_file_shook stod) files report_init"

text \<open>
  The section "Indices with Missing '0.2 seconds' Tag" of the final report
  prints the elements of \<open>missingEventIndices\<close>.
\<close>

definition missing_event_section :: "report \<Rightarrow> string set" where
  "missing_event_section st = missingEventIndices st"

subsection \<open>The windows as the specification describes them\<close>

text \<open>
  A sample is a data row that passed the length test and whose four cells were
  converted: time, left pupil, right pupil, luminance.
\<close>

type_synonym sample = "real \<times> real \<times> real \<times> real"

definition s_time :: "sample \<Rightarrow> real" where "s_time s = fst s"
definition s_left :: "sample \<Rightarrow> real" where "s_left s = fst (snd s)"
definition s_right :: "sample \<Rightarrow> real" where "s_right s = fst (snd (snd s))"
definition s_lum :: "sample \<Rightarrow> real" where "s_lum s = snd (snd (snd s))"

definition parsed_samples ::
  "(string \<Rightarrow> real option) \<Rightarrow> int \<Rightarrow> int \<Rightarrow> int \<Rightarrow> table \<Rightarrow> sample list" where
  "parsed_samples stod timeCol leftPupilCol rightPupilCol rows =
     List.map_filter
       (\<lambda>r. case read_row stod timeCol leftPupilCol rightPupilCol r of
              Inr (Some s) \<Rightarrow> Some s | _ \<Rightarrow> None)
       rows"

text \<open>The samples whose time lies in the closed interval from \<open>lo\<close> to \<open>hi\<close>.\<close>

definition spec_window :: "real \<Rightarrow> real \<Rightarrow> sample list \<Rightarrow> sample list" where
  "spec_window lo hi ss = filter (\<lambda>s. lo \<le> s_time s \<and> s_time s \<le> hi) ss"

text \<open>The values of a quantity that count as valid: those above zero.\<close>

definition valid_values :: "real list \<Rightarrow> real list" where
  "valid_values vs = filter (\<lambda>v. v > 0) vs"

text \<open>The accumulators a window of samples should end with.\<close>

definition summarise :: "sample list \<Rightarrow> window" where
  "summarise ss =
     \<lparr>sumLeft = sum_list (valid_values (map s_left ss)),
      leftcount = length (valid_values (map s_left ss)),
      leftvec = valid_values (map s_left ss),
      sumRight = sum_list (valid_values (map s_right ss)),
      rightcount = length (valid_values (map s_right ss)),
      rightvec = valid_values (map s_right ss),
      luminancesum = sum_list (valid_values (map s_lum ss)),
      luminancecnt = length (valid_values (map s_lum ss)),
      rowcount = length ss\<rparr>"

text \<open>Bessel-corrected sample standard deviation of at least two values.\<close>

definition mean_of :: "real list \<Rightarrow> real" where
  "mean_of vs = sum_list vs / real (length vs)"

definition bessel_variance :: "real list \<Rightarrow> real" where
  "bessel_variance vs =
     (sum_list (map (\<lambda>v. v * v) vs) - (sum_list vs) ^ 2 / real (length vs)) / real (length vs - 1)"

definition sample_stddev :: "real list \<Rightarrow> real" where
  "sample_stddev vs = sqrt (bessel_variance vs)"



subsection \<open>A decimal instance of \<open>stod\<close> for the examples\<close>

text \<open>
  \<open>stod_plain\<close> converts the longest prefix of the form: white space, an
  optional sign, digits, an optional point and digits, to the double nearest
  to the decimal number.  It has no exponents, hexadecimal numbers, infinities
  or NaN; on cells without those it is what \<open>stod\<close> returns.
\<close>

definition is_digit :: "char \<Rightarrow> bool" where
  "is_digit c = (let n = (of_char c :: nat) in 48 \<le> n \<and> n \<le> 57)"

definition digits_value :: "string \<Rightarrow> nat" where
  "digits_value ds = fold (\<lambda>c n. 10 * n + (of_char c - 48)) ds 0"

definition stod_plain :: "string \<Rightarrow> real option" where
  "stod_plain str =
     (let s1 = dropWhile isspace str;
          neg = (s1 \<noteq> [] \<and> hd s1 = CHR ''-'');
          s2 = (if s1 \<noteq> [] \<and> (hd s1 = CHR ''-'' \<or> hd s1 = CHR ''+'') then tl s1 else s1);
          ip = takeWhile is_digit s2;
          rest = dropWhile is_digit s2;
          fp = (if rest \<noteq> [] \<and> hd rest = CHR ''.'' then takeWhile is_digit (tl rest) else [])
      in if ip = [] \<and> fp = [] then None
         else Some (fl ((if neg then -1 else 1)
                        * (real (digits_value ip) + real (digits_value fp) / 10 ^ length fp))))"

subsection \<open>Auxiliary notions for the statements\<close>

text \<open>Running the accumulation over a list of samples.\<close>

definition absorb :: "window \<Rightarrow> sample list \<Rightarrow> window" where
  "absorb w ss = fold (\<lambda>s. accumulate (s_left s) (s_right s) (s_lum s)) ss w"





text \<open>
  A window's accumulators take a value only when it is above zero, and count
  every row: \<open>rows\<close> are the samples of the window.
\<close>

definition counts_only_positive :: "window \<Rightarrow> sample list \<Rightarrow> bool" where
  "counts_only_positive w rows =
     (leftvec w = filter (\<lambda>v. 0 < v) (map s_left rows)
      \<and> sumLeft w = sum_list (filter (\<lambda>v. 0 < v) (map s_left rows))
      \<and> leftcount w = length (filter (\<lambda>v. 0 < v) (map s_left rows))
      \<and> rightvec w = filter (\<lambda>v. 0 < v) (map s_right rows)
      \<and> sumRight w = sum_list (filter (\<lambda>v. 0 < v) (map s_right rows))
      \<and> rightcount w = length (filter (\<lambda>v. 0 < v) (map s_right rows))
      \<and> luminancesum w = sum_list (filter (\<lambda>v. 0 < v) (map s_lum rows))
      \<and> luminancecnt w = length (filter (\<lambda>v. 0 < v) (map s_lum rows))
      \<and> rowcount w = length rows)"

text \<open>
  A reported mean \<open>v\<close> of a window with at least one row that passes the
  validity rule is a positive number, the mean of positive values.
\<close>

definition positive_mean :: "dbl \<Rightarrow> real list \<Rightarrow> nat \<Rightarrow> bool" where
  "positive_mean v vals m =
     (0 < m \<and> real (length (valid_values vals)) \<ge> 0.5 * real m
        \<longrightarrow> (\<exists>x. v = Fin x \<and> 0 < x \<and> x = mean_of (valid_values vals))
            \<and> valid_values vals \<noteq> []
            \<and> (\<forall>y\<in>set (valid_values vals). 0 < y))"

definition reported_positive :: "dbl list \<Rightarrow> sample list \<Rightarrow> sample list \<Rightarrow> bool" where
  "reported_positive out wb wa =
     (positive_mean (out ! 0) (map s_lum wb) (length wb)
      \<and> positive_mean (out ! 1) (map s_left wb) (length wb)
      \<and> positive_mean (out ! 4) (map s_right wb) (length wb)
      \<and> positive_mean (out ! 7) (map s_lum wa) (length wa)
      \<and> positive_mean (out ! 8) (map s_left wa) (length wa)
      \<and> positive_mean (out ! 11) (map s_right wa) (length wa))"

text \<open>
  Student's t distribution with one degree of freedom is the Cauchy
  distribution; this is its CDF, used as the instance of \<open>cdf\<close> in the example
  with two samples on each side.
\<close>

definition cauchy_cdf :: "int \<Rightarrow> real \<Rightarrow> real" where
  "cauchy_cdf df x = 1 / 2 + arctan x / pi"

subsection \<open>Example data\<close>

text \<open>The left-eye calibration mapping of the specification's third scenario.\<close>

definition row10 :: PupilData where
  "row10 = \<lparr>luminance = 10, avgSize = 5, count = 5, stdDev = 0.1\<rparr>"

definition row20 :: PupilData where
  "row20 = \<lparr>luminance = 20, avgSize = 6, count = 5, stdDev = 0.1\<rparr>"

definition scenario_map :: lum_map where
  "scenario_map = [(10, row10), (20, row20)]"

text \<open>
  A recording with the tag "0.2 seconds" at time 2 and "shook" at time 4.
  Before the tag the right pupil is 1, 3, 5; afterwards it is constantly 3.
\<close>

definition header_row :: row where
  "header_row = [''time'', ''luminance'', ''leftPupil'', ''rightPupil'', ''robotEvent'']"

definition recording :: table where
  "recording =
     [header_row,
      [''0.0'', ''10'', ''4.0'', ''1.0''],
      [''1.0'', ''10'', ''-1'', ''3.0''],
      [''2.0'', ''10'', ''4.0'', ''5.0'', ''0.2 seconds''],
      [''3.0'', ''12'', ''4.0'', ''3.0''],
      [''4.0'', ''12'', ''4.0'', ''3.0'', ''shook''],
      [''5.0'', ''12'', ''4.0'', ''3.0'']]"

text \<open>The same recording cut off after the tagged row: no row lies after the tag.\<close>

definition recording_cut :: table where
  "recording_cut = take 4 recording"

text \<open>A recording with the tag but no "shook" row.\<close>

definition recording_no_shook :: table where
  "recording_no_shook =
     [header_row,
      [''0.0'', ''10'', ''4.0'', ''1.0''],
      [''2.0'', ''10'', ''4.0'', ''5.0'', ''0.2 seconds''],
      [''3.0'', ''12'', ''4.0'', ''3.0'']]"

text \<open>A recording without any tag.\<close>

definition recording_no_tag :: table where
  "recording_no_tag =
     [header_row,
      [''0.0'', ''10'', ''4.0'', ''1.0''],
      [''3.0'', ''12'', ''4.0'', ''3.0'']]"

text \<open>A recording whose first column is the left pupil, so that \<open>leftPupilCol - 1\<close> is -1.\<close>

definition recording_left_first :: table where
  "recording_left_first =
     [[''leftPupil'', ''rightPupil'', ''robotEvent''],
      [''2.0'', ''3.0'', ''0.2 seconds''],
      [''3.0'', ''3.0'', ''shook'']]"

text \<open>A recording whose header has no left pupil column.\<close>

definition recording_no_left :: table where
  "recording_no_left =
     [[''time'', ''luminance'', ''rightPupil'', ''robotEvent''],
      [''2.0'', ''10'', ''3.0'', ''0.2 seconds''],
      [''3.0'', ''10'', ''3.0'', ''shook'']]"

text \<open>
  A mapping with the luminances 1.2 and 20.2, looked up at 10.7 (the doubles
  nearest to these decimals).
\<close>

definition rowA :: PupilData where
  "rowA = \<lparr>luminance = fl 1.2, avgSize = 5, count = 5, stdDev = 0.1\<rparr>"

definition rowB :: PupilData where
  "rowB = \<lparr>luminance = fl 20.2, avgSize = 6, count = 5, stdDev = 0.1\<rparr>"

definition rounding_map :: lum_map where
  "rounding_map = [(fl 1.2, rowA), (fl 20.2, rowB)]"


text \<open>A recording with "shook" at time 0.2 and a row at time 5.2.\<close>

definition recording_shook_edge :: table where
  "recording_shook_edge =
     [header_row,
      [''0.0'', ''10'', ''4.0'', ''3.0'', ''0.2 seconds''],
      [''0.2'', ''10'', ''4.0'', ''3.0'', ''shook''],
      [''5.2'', ''10'', ''4.0'', ''3.0'']]"

text \<open>A recording with the tag at time 0.2 and a row at time 0.429.\<close>

definition recording_sum_edge :: table where
  "recording_sum_edge =
     [header_row,
      [''0.2'', ''10'', ''4.0'', ''3.0'', ''0.2 seconds''],
      [''0.429'', ''10'', ''4.0'', ''3.0'']]"

text \<open>A recording with the tag at time 10.0 and a row at time 10.229.\<close>

definition recording_tag_edge :: table where
  "recording_tag_edge =
     [header_row,
      [''10.0'', ''10'', ''4.0'', ''3.0'', ''0.2 seconds''],
      [''10.229'', ''10'', ''4.0'', ''3.0'']]"

section \<open>Properties of the rounding\<close>

text \<open>
  \<open>fl\<close> is odd and monotone, maps positive numbers to positive numbers, and
  leaves integers below \<open>2\<^sup>5\<^sup>3\<close> unchanged.  \<open>fl_binade\<close> evaluates it at a number
  whose binary exponent is known.
\<close>

lemma rne_of_int: "rne (of_int j) = j"
  by (simp add: rne_def)

lemma rne_floor_bounds: "\<lfloor>q\<rfloor> \<le> rne q \<and> rne q \<le> \<lfloor>q\<rfloor> + 1"
  by (simp add: rne_def Let_def)

lemma rne_mono:
  assumes "q \<le> q'"
  shows "rne q \<le> rne q'"
proof (cases "\<lfloor>q\<rfloor> < \<lfloor>q'\<rfloor>")
  case True
  then show ?thesis
    using rne_floor_bounds[of q] rne_floor_bounds[of q'] by linarith
next
  case False
  with assms have eq: "\<lfloor>q\<rfloor> = \<lfloor>q'\<rfloor>" using floor_mono[OF assms] by linarith
  then have "q - of_int \<lfloor>q\<rfloor> \<le> q' - of_int \<lfloor>q'\<rfloor>" using assms by simp
  then show ?thesis
    unfolding rne_def Let_def eq by auto
qed

lemma binade:
  assumes "x \<noteq> 0"
  shows "2 powi \<lfloor>log 2 \<bar>x\<bar>\<rfloor> \<le> \<bar>x\<bar> \<and> \<bar>x\<bar> < 2 powi (\<lfloor>log 2 \<bar>x\<bar>\<rfloor> + 1)"
proof -
  have pos: "0 < \<bar>x\<bar>" using assms by simp
  have "\<lfloor>log 2 \<bar>x\<bar>\<rfloor> = \<lfloor>log 2 \<bar>x\<bar>\<rfloor>" ..
  then have "2 powr real_of_int \<lfloor>log 2 \<bar>x\<bar>\<rfloor> \<le> \<bar>x\<bar>
      \<and> \<bar>x\<bar> < 2 powr (real_of_int \<lfloor>log 2 \<bar>x\<bar>\<rfloor> + 1)"
    using floor_log_eq_powr_iff[OF pos, of 2 "\<lfloor>log 2 \<bar>x\<bar>\<rfloor>"] by simp
  moreover have "real_of_int \<lfloor>log 2 \<bar>x\<bar>\<rfloor> + 1 = real_of_int (\<lfloor>log 2 \<bar>x\<bar>\<rfloor> + 1)" by simp
  ultimately show ?thesis
    by (simp only: powr_real_of_int'[of 2, simplified])
qed

lemma binade_unique:
  assumes "2 powi k \<le> \<bar>x\<bar>" and "\<bar>x\<bar> < 2 powi (k + 1)"
  shows "\<lfloor>log 2 \<bar>x\<bar>\<rfloor> = k"
proof -
  have "(0::real) < 2 powi k" by simp
  with assms(1) have pos: "0 < \<bar>x\<bar>" by linarith
  have "2 powr real_of_int k \<le> \<bar>x\<bar>" using assms(1) by (simp add: powr_real_of_int')
  moreover have "\<bar>x\<bar> < 2 powr (real_of_int k + 1)"
  proof -
    have "real_of_int k + 1 = real_of_int (k + 1)" by simp
    then show ?thesis using assms(2) by (simp only: powr_real_of_int'[of 2, simplified])
  qed
  ultimately show ?thesis using floor_log_eq_powr_iff[OF pos, of 2 k] by simp
qed

lemma fl_binade:
  assumes "2 powi k \<le> \<bar>x\<bar>" and "\<bar>x\<bar> < 2 powi (k + 1)"
  shows "fl x = sgn x * (of_int (rne (\<bar>x\<bar> / 2 powi (k - 52))) * 2 powi (k - 52))"
proof -
  have "(0::real) < 2 powi k" by simp
  with assms(1) have "0 < \<bar>x\<bar>" by linarith
  then have "x \<noteq> 0" by simp
  then show ?thesis
    by (simp add: fl_def Let_def binade_unique[OF assms])
qed

lemma fl_zero: "fl 0 = 0"
  by (simp add: fl_def)

lemma fl_minus: "fl (- x) = - fl x"
  by (simp add: fl_def Let_def)


lemma scaled_range:
  assumes "2 powi k \<le> (y::real)" and "y < 2 powi (k + 1)"
  shows "2 ^ 52 \<le> y / 2 powi (k - 52) \<and> y / 2 powi (k - 52) < 2 ^ 53"
proof -
  have p: "(0::real) < 2 powi (k - 52)" by simp
  have a: "(2::real) powi k = 2 ^ 52 * 2 powi (k - 52)"
    using power_int_add[of "2::real" 52 "k - 52"] by simp
  have b: "(2::real) powi (k + 1) = 2 ^ 53 * 2 powi (k - 52)"
    using power_int_add[of "2::real" 53 "k - 52"] by (simp add: add.commute)
  from assms(1) have "2 ^ 52 * 2 powi (k - 52) \<le> y" unfolding a .
  then have l: "2 ^ 52 \<le> y / 2 powi (k - 52)" using p by (simp add: pos_le_divide_eq)
  from assms(2) have "y < 2 ^ 53 * 2 powi (k - 52)" unfolding b .
  then have u: "y / 2 powi (k - 52) < 2 ^ 53" using p by (simp add: pos_divide_less_eq)
  from l u show ?thesis ..
qed

lemma rne_range:
  assumes "2 ^ 52 \<le> q" and "q < 2 ^ 53"
  shows "2 ^ 52 \<le> rne q \<and> rne q \<le> 2 ^ 53"
proof -
  have "rne (of_int (2 ^ 52)) \<le> rne q" using assms(1) by (intro rne_mono) simp
  moreover have "rne q \<le> rne (of_int (2 ^ 53))" using assms(2) by (intro rne_mono) simp
  ultimately show ?thesis unfolding rne_of_int by simp
qed

lemma fl_pos_range:
  assumes "2 powi k \<le> (x::real)" and "x < 2 powi (k + 1)"
  shows "2 powi k \<le> fl x \<and> fl x \<le> 2 powi (k + 1)"
proof -
  have "(0::real) < 2 powi k" by simp
  with assms(1) have xp: "0 < x" by linarith
  then have ax: "\<bar>x\<bar> = x" and sg: "sgn x = 1" by simp_all
  have flx: "fl x = of_int (rne (x / 2 powi (k - 52))) * 2 powi (k - 52)"
    using fl_binade[of k x] assms ax sg by simp
  have r: "2 ^ 52 \<le> rne (x / 2 powi (k - 52)) \<and> rne (x / 2 powi (k - 52)) \<le> 2 ^ 53"
    using rne_range scaled_range[OF assms] by blast
  have p: "(0::real) \<le> 2 powi (k - 52)" by simp
  have a: "(2::real) powi k = 2 ^ 52 * 2 powi (k - 52)"
    using power_int_add[of "2::real" 52 "k - 52"] by simp
  have b: "(2::real) powi (k + 1) = 2 ^ 53 * 2 powi (k - 52)"
    using power_int_add[of "2::real" 53 "k - 52"] by (simp add: add.commute)
  from r have "(2::real) ^ 52 \<le> of_int (rne (x / 2 powi (k - 52)))"
    and "real_of_int (rne (x / 2 powi (k - 52))) \<le> 2 ^ 53"
    by (metis of_int_le_iff of_int_numeral of_int_power)+
  then have "2 ^ 52 * 2 powi (k - 52) \<le> fl x" and "fl x \<le> 2 ^ 53 * 2 powi (k - 52)"
    unfolding flx using p by (auto intro: mult_right_mono)
  then show ?thesis unfolding a b ..
qed

lemma fl_pos: "0 < x \<Longrightarrow> 0 < fl x"
proof -
  assume xp: "0 < x"
  then have "x \<noteq> 0" and ax: "\<bar>x\<bar> = x" by simp_all
  from binade[OF this(1)] have "2 powi \<lfloor>log 2 \<bar>x\<bar>\<rfloor> \<le> fl x"
    using fl_pos_range[of "\<lfloor>log 2 \<bar>x\<bar>\<rfloor>" x] ax by simp
  moreover have "(0::real) < 2 powi \<lfloor>log 2 \<bar>x\<bar>\<rfloor>" by simp
  ultimately show ?thesis by linarith
qed

lemma fl_mono_pos:
  assumes "0 < x" and "x \<le> y"
  shows "fl x \<le> fl y"
proof -
  define kx where "kx = \<lfloor>log 2 \<bar>x\<bar>\<rfloor>"
  define ky where "ky = \<lfloor>log 2 \<bar>y\<bar>\<rfloor>"
  from assms have yp: "0 < y" by linarith
  have ax: "\<bar>x\<bar> = x" and ay: "\<bar>y\<bar> = y" using assms yp by simp_all
  have rx: "2 powi kx \<le> x" "x < 2 powi (kx + 1)"
    using binade[of x] assms(1) ax unfolding kx_def by simp_all
  have ry: "2 powi ky \<le> y" "y < 2 powi (ky + 1)"
    using binade[of y] yp ay unfolding ky_def by simp_all
  have "log 2 x \<le> log 2 y" using assms by simp
  then have kle: "kx \<le> ky" unfolding kx_def ky_def ax ay by (rule floor_mono)
  show ?thesis
  proof (cases "kx = ky")
    case True
    have "fl x = of_int (rne (x / 2 powi (kx - 52))) * 2 powi (kx - 52)"
      using fl_binade[of kx x] rx ax assms(1) by simp
    moreover have "fl y = of_int (rne (y / 2 powi (kx - 52))) * 2 powi (kx - 52)"
      using fl_binade[of ky y] ry ay yp True by simp
    moreover have "rne (x / 2 powi (kx - 52)) \<le> rne (y / 2 powi (kx - 52))"
      using assms(2) by (intro rne_mono divide_right_mono) simp_all
    ultimately show ?thesis by (simp add: mult_right_mono)
  next
    case False
    with kle have "kx + 1 \<le> ky" by simp
    then have "(2::real) powi (kx + 1) \<le> 2 powi ky" by (intro power_int_increasing) simp_all
    moreover have "fl x \<le> 2 powi (kx + 1)" using fl_pos_range[OF rx] by blast
    moreover have "2 powi ky \<le> fl y" using fl_pos_range[OF ry] by blast
    ultimately show ?thesis by linarith
  qed
qed

lemma fl_mono:
  assumes "x \<le> y"
  shows "fl x \<le> fl y"
proof -
  consider "0 < x" | "x \<le> 0" "0 \<le> y" | "y < 0" using assms by linarith
  then show ?thesis
  proof cases
    case 1
    then show ?thesis using assms by (rule fl_mono_pos)
  next
    case 2
    have "fl x \<le> 0"
    proof (cases "x = 0")
      case True then show ?thesis by (simp add: fl_zero)
    next
      case False
      with 2 have "0 < - x" by simp
      from fl_pos[OF this] show ?thesis by (simp add: fl_minus)
    qed
    moreover have "0 \<le> fl y"
    proof (cases "y = 0")
      case True then show ?thesis by (simp add: fl_zero)
    next
      case False
      with 2 have "0 < y" by simp
      from fl_pos[OF this] show ?thesis by simp
    qed
    ultimately show ?thesis by linarith
  next
    case 3
    then have "0 < - y" and "- y \<le> - x" using assms by simp_all
    from fl_mono_pos[OF this] show ?thesis by (simp add: fl_minus)
  qed
qed

lemma fl_abs: "\<bar>fl x\<bar> = fl \<bar>x\<bar>"
proof (cases "0 \<le> x")
  case True
  then have "fl 0 \<le> fl x" by (rule fl_mono)
  then show ?thesis using True by (simp add: fl_zero)
next
  case False
  then have "fl x \<le> fl 0" by (intro fl_mono) simp
  then show ?thesis using False by (simp add: fl_zero fl_minus abs_if)
qed


lemma fl_of_int:
  assumes "\<bar>n\<bar> < 2 ^ 53"
  shows "fl (of_int n) = of_int n"
proof (cases "n = 0")
  case True
  then show ?thesis by (simp add: fl_zero)
next
  case False
  define x :: real where "x = of_int n"
  define k where "k = \<lfloor>log 2 \<bar>x\<bar>\<rfloor>"
  have xn: "x \<noteq> 0" using False by (simp add: x_def)
  have bn: "2 powi k \<le> \<bar>x\<bar>" "\<bar>x\<bar> < 2 powi (k + 1)"
    using binade[OF xn] unfolding k_def by simp_all
  have "1 \<le> \<bar>n\<bar>" using False by linarith
  then have "(1::real) \<le> of_int \<bar>n\<bar>" by (simp only: of_int_1_le_iff)
  then have "1 \<le> \<bar>x\<bar>" by (simp add: x_def)
  then have "(2::real) powi 0 < 2 powi (k + 1)" using bn(2) by simp
  have k0: "0 \<le> k"
  proof (rule ccontr)
    assume "\<not> 0 \<le> k"
    then have "k + 1 \<le> 0" by simp
    then have "(2::real) powi (k + 1) \<le> 2 powi 0" by (intro power_int_increasing) simp_all
    with \<open>(2::real) powi 0 < 2 powi (k + 1)\<close> show False by simp
  qed
  have "(of_int \<bar>n\<bar> :: real) < of_int (2 ^ 53)" using assms by (simp only: of_int_less_iff)
  then have "\<bar>x\<bar> < 2 ^ 53" by (simp add: x_def)
  then have "(2::real) powi k < 2 powi 53" using bn(1) by simp
  have k52: "k \<le> 52"
  proof (rule ccontr)
    assume "\<not> k \<le> 52"
    then have "53 \<le> k" by simp
    then have "(2::real) powi 53 \<le> 2 powi k" by (intro power_int_increasing) simp_all
    with \<open>(2::real) powi k < 2 powi 53\<close> show False by simp
  qed
  define j where "j = nat (52 - k)"
  have e: "k - 52 = - int j" using k52 by (simp add: j_def)
  have sc: "\<bar>x\<bar> / 2 powi (k - 52) = of_int (\<bar>n\<bar> * 2 ^ j)"
    unfolding e by (simp add: x_def power_int_minus field_simps)
  have "fl x = sgn x * (of_int (rne (\<bar>x\<bar> / 2 powi (k - 52))) * 2 powi (k - 52))"
    using fl_binade[OF bn] .
  also have "\<dots> = sgn x * (of_int (\<bar>n\<bar> * 2 ^ j) * 2 powi (k - 52))"
    unfolding sc rne_of_int ..
  also have "\<dots> = sgn x * \<bar>x\<bar>"
    unfolding e by (simp add: x_def power_int_minus field_simps)
  also have "\<dots> = x" by (simp add: sgn_mult_abs)
  finally show ?thesis unfolding x_def .
qed

lemma fl_small_numerals:
  "fl 1 = 1"
  "fl (- 1) = - 1"
  "numeral w < (2::int) ^ 53 \<Longrightarrow> fl (numeral w) = numeral w"
  "numeral w < (2::int) ^ 53 \<Longrightarrow> fl (- numeral w) = - numeral w"
  using fl_of_int[of 1] fl_of_int[of "- 1"] fl_of_int[of "numeral w"] fl_of_int[of "- numeral w"]
  by simp_all

lemma fl_eq_0_iff: "fl x = 0 \<longleftrightarrow> x = 0"
proof
  assume z: "fl x = 0"
  show "x = 0"
  proof (rule ccontr)
    assume "x \<noteq> 0"
    then consider "0 < x" | "0 < - x" by linarith
    then show False
    proof cases
      case 1
      from fl_pos[OF 1] z show False by simp
    next
      case 2
      from fl_pos[OF 2] z show False by (simp add: fl_minus)
    qed
  qed
next
  assume "x = 0"
  then show "fl x = 0" by (simp add: fl_zero)
qed

section \<open>Properties of the calibration lookup\<close>

subsection \<open>The map invariant\<close>

text \<open>Assignments keep the keys strictly increasing, so every mapping read from a file is sorted.\<close>

lemma map_assign_members:
  "q \<in> set (map_assign k v m) \<Longrightarrow> fst q = k \<or> q \<in> set m"
  by (induction k v m rule: map_assign.induct) (auto split: if_splits)

lemma map_assign_sorted: "sorted_keys m \<Longrightarrow> sorted_keys (map_assign k v m)"
proof (induction k v m rule: map_assign.induct)
  case (1 k v)
  then show ?case by (simp add: sorted_keys_def)
next
  case (2 k v k' v' m)
  from "2.prems" have sm: "sorted_keys m" and lt: "\<forall>q\<in>set m. k' < fst q"
    by (auto simp: sorted_keys_def)
  show ?case
  proof (cases "k < k'")
    case True
    with "2.prems" lt show ?thesis by (auto simp: sorted_keys_def)
  next
    case nlt: False
    show ?thesis
    proof (cases "k = k'")
      case True
      with "2.prems" show ?thesis by (auto simp: sorted_keys_def)
    next
      case False
      with nlt have kk: "k' < k" by simp
      have "\<forall>q\<in>set (map_assign k v m). k' < fst q"
        using map_assign_members[of _ k v m] lt kk by blast
      moreover have "sorted_keys (map_assign k v m)" using "2.IH"[OF nlt False sm] .
      ultimately show ?thesis using nlt False by (simp add: sorted_keys_def)
    qed
  qed
qed

lemma readLuminanceMapping_sorted:
  "sorted_keys (fst acc) \<Longrightarrow> sorted_keys (snd acc) \<Longrightarrow>
   sorted_keys (fst (readLuminanceMapping ls acc)) \<and> sorted_keys (snd (readLuminanceMapping ls acc))"
  by (induction ls acc rule: readLuminanceMapping.induct) (simp_all add: map_assign_sorted)

subsection \<open>The entries around the target\<close>

lemma closest_at_end:
  "m \<noteq> [] \<Longrightarrow> dropWhile (\<lambda>p. fst p < t) m = [] \<Longrightarrow>
   getClosestLuminanceMatch m t = snd (last (takeWhile (\<lambda>p. fst p < t) m))"
  unfolding getClosestLuminanceMatch_def Let_def by (simp only: if_False if_True simp_thms)

lemma closest_at_begin:
  "m \<noteq> [] \<Longrightarrow> dropWhile (\<lambda>p. fst p < t) m \<noteq> [] \<Longrightarrow> takeWhile (\<lambda>p. fst p < t) m = [] \<Longrightarrow>
   getClosestLuminanceMatch m t = snd (hd (dropWhile (\<lambda>p. fst p < t) m))"
  unfolding getClosestLuminanceMatch_def Let_def by (simp only: if_False if_True simp_thms)

lemma closest_between:
  "m \<noteq> [] \<Longrightarrow> dropWhile (\<lambda>p. fst p < t) m \<noteq> [] \<Longrightarrow> takeWhile (\<lambda>p. fst p < t) m \<noteq> [] \<Longrightarrow>
   getClosestLuminanceMatch m t =
     (if \<bar>fl (fst (last (takeWhile (\<lambda>p. fst p < t) m)) - t)\<bar>
           < \<bar>fl (fst (hd (dropWhile (\<lambda>p. fst p < t) m)) - t)\<bar>
      then snd (last (takeWhile (\<lambda>p. fst p < t) m)) else snd (hd (dropWhile (\<lambda>p. fst p < t) m)))"
  unfolding getClosestLuminanceMatch_def Let_def by (simp only: if_False if_True simp_thms)


lemma below_keys:
  "p \<in> set (takeWhile (\<lambda>p. fst p < t) (m::lum_map)) \<Longrightarrow> fst p < t"
  by (auto dest: set_takeWhileD)

lemma sorted_keys_parts:
  assumes "sorted_keys m"
  shows "sorted_wrt (<) (map fst (takeWhile (\<lambda>p. fst p < t) m))"
    and "sorted_wrt (<) (map fst (dropWhile (\<lambda>p. fst p < t) m))"
proof -
  have "sorted_wrt (<) (map fst (takeWhile (\<lambda>p. fst p < t) m @ dropWhile (\<lambda>p. fst p < t) m))"
    using assms by (simp add: sorted_keys_def)
  then show "sorted_wrt (<) (map fst (takeWhile (\<lambda>p. fst p < t) m))"
    and "sorted_wrt (<) (map fst (dropWhile (\<lambda>p. fst p < t) m))"
    unfolding map_append sorted_wrt_append by blast+
qed

lemma sorted_last_max:
  "sorted_wrt (<) (map fst (b::lum_map)) \<Longrightarrow> p \<in> set b \<Longrightarrow> fst p \<le> fst (last b)"
proof (induction b)
  case Nil
  then show ?case by simp
next
  case (Cons x b)
  show ?case
  proof (cases "b = []")
    case True
    with Cons.prems show ?thesis by simp
  next
    case False
    then have lb: "last b \<in> set b" by simp
    from Cons.prems(1) have sb: "sorted_wrt (<) (map fst b)" and lt: "\<forall>q\<in>set b. fst x < fst q"
      by simp_all
    from Cons.prems(2) have "p = x \<or> p \<in> set b" by simp
    then show ?thesis
    proof
      assume "p = x"
      with lt lb False show ?thesis by (simp add: less_imp_le)
    next
      assume "p \<in> set b"
      with Cons.IH[OF sb] False show ?thesis by simp
    qed
  qed
qed

lemma sorted_hd_min:
  "sorted_wrt (<) (map fst (b::lum_map)) \<Longrightarrow> p \<in> set b \<Longrightarrow> fst (hd b) \<le> fst p"
  by (cases b) (auto simp: less_imp_le)

lemma hd_above_target:
  "dropWhile (\<lambda>p. fst p < t) (m::lum_map) \<noteq> [] \<Longrightarrow> t \<le> fst (hd (dropWhile (\<lambda>p. fst p < t) m))"
  using hd_dropWhile[of "\<lambda>p. fst p < t" m] by simp


lemma rounded_distance_mono:
  "\<bar>a - t\<bar> \<le> \<bar>b - t\<bar> \<Longrightarrow> \<bar>fl (a - t)\<bar> \<le> \<bar>fl (b - t)\<bar>"
  unfolding fl_abs by (rule fl_mono)

lemma closest_is_minimal:
  assumes srt: "sorted_keys m" and ne: "m \<noteq> []"
  shows "\<exists>k. (k, getClosestLuminanceMatch m t) \<in> set m \<and>
             (\<forall>p\<in>set m. \<bar>fl (k - t)\<bar> \<le> \<bar>fl (fst p - t)\<bar>)"
proof -
  define b where "b = takeWhile (\<lambda>p. fst p < t) m"
  define it where "it = dropWhile (\<lambda>p. fst p < t) m"
  have mset: "set m = set b \<union> set it"
    unfolding b_def it_def by (metis set_append takeWhile_dropWhile_id)
  have lo: "fst p < t \<and> fst p \<le> fst (last b)" if "p \<in> set b" for p
    using that below_keys[of p t m] sorted_last_max[OF sorted_keys_parts(1)[OF srt, of t], of p]
    unfolding b_def by blast
  have hi: "t \<le> fst (hd it) \<and> fst (hd it) \<le> fst p" if "p \<in> set it" for p
  proof -
    from that have "it \<noteq> []" by auto
    then have "t \<le> fst (hd it)" unfolding it_def by (rule hd_above_target)
    moreover have "fst (hd it) \<le> fst p"
      using that sorted_hd_min[OF sorted_keys_parts(2)[OF srt, of t], of p] unfolding it_def by blast
    ultimately show ?thesis ..
  qed
  have below_last: "\<bar>fl (fst (last b) - t)\<bar> \<le> \<bar>fl (fst p - t)\<bar>" if "p \<in> set b" for p
  proof -
    from that have "b \<noteq> []" by auto
    then have "last b \<in> set b" by simp
    from lo[OF this] lo[OF that] have "\<bar>fst (last b) - t\<bar> \<le> \<bar>fst p - t\<bar>" by linarith
    then show ?thesis by (rule rounded_distance_mono)
  qed
  have above_hd: "\<bar>fl (fst (hd it) - t)\<bar> \<le> \<bar>fl (fst p - t)\<bar>" if "p \<in> set it" for p
  proof -
    from hi[OF that] have "\<bar>fst (hd it) - t\<bar> \<le> \<bar>fst p - t\<bar>" by linarith
    then show ?thesis by (rule rounded_distance_mono)
  qed
  have pick_last: ?thesis
    if res: "getClosestLuminanceMatch m t = snd (last b)" and bne: "b \<noteq> []"
      and best: "\<forall>p\<in>set it. \<bar>fl (fst (last b) - t)\<bar> \<le> \<bar>fl (fst p - t)\<bar>"
  proof -
    have lb: "last b \<in> set b" using bne by simp
    then have mem: "(fst (last b), getClosestLuminanceMatch m t) \<in> set m"
      using mset res by simp
    have "\<bar>fl (fst (last b) - t)\<bar> \<le> \<bar>fl (fst p - t)\<bar>" if "p \<in> set m" for p
    proof (cases "p \<in> set b")
      case True
      then show ?thesis by (rule below_last)
    next
      case False
      with that mset have "p \<in> set it" by blast
      with best show ?thesis by blast
    qed
    with mem show ?thesis by blast
  qed
  have pick_hd: ?thesis
    if res: "getClosestLuminanceMatch m t = snd (hd it)" and ine: "it \<noteq> []"
      and best: "\<forall>p\<in>set b. \<bar>fl (fst (hd it) - t)\<bar> \<le> \<bar>fl (fst p - t)\<bar>"
  proof -
    have hb: "hd it \<in> set it" using ine by simp
    then have mem: "(fst (hd it), getClosestLuminanceMatch m t) \<in> set m"
      using mset res by simp
    have "\<bar>fl (fst (hd it) - t)\<bar> \<le> \<bar>fl (fst p - t)\<bar>" if "p \<in> set m" for p
    proof (cases "p \<in> set it")
      case True
      then show ?thesis by (rule above_hd)
    next
      case False
      with that mset have "p \<in> set b" by blast
      with best show ?thesis by blast
    qed
    with mem show ?thesis by blast
  qed
  show ?thesis
  proof (cases "it = []")
    case True
    then have "getClosestLuminanceMatch m t = snd (last b)"
      unfolding b_def it_def using closest_at_end[OF ne] by blast
    moreover have "b \<noteq> []" using True mset ne by auto
    ultimately show ?thesis using pick_last True by simp
  next
    case ine: False
    show ?thesis
    proof (cases "b = []")
      case True
      then have "getClosestLuminanceMatch m t = snd (hd it)"
        unfolding b_def it_def using closest_at_begin[OF ne] ine[unfolded it_def] by blast
      then show ?thesis using pick_hd ine True by simp
    next
      case bne: False
      have lb: "last b \<in> set b" and hb: "hd it \<in> set it" using bne ine by simp_all
      have res: "getClosestLuminanceMatch m t =
         (if \<bar>fl (fst (last b) - t)\<bar> < \<bar>fl (fst (hd it) - t)\<bar>
          then snd (last b) else snd (hd it))"
        unfolding b_def it_def
        using closest_between[OF ne] ine[unfolded it_def] bne[unfolded b_def] by blast
      show ?thesis
      proof (cases "\<bar>fl (fst (last b) - t)\<bar> < \<bar>fl (fst (hd it) - t)\<bar>")
        case True
        have "\<bar>fl (fst (last b) - t)\<bar> \<le> \<bar>fl (fst p - t)\<bar>" if "p \<in> set it" for p
          using above_hd[OF that] True by linarith
        then show ?thesis using pick_last res True bne by simp
      next
        case False
        have "\<bar>fl (fst (hd it) - t)\<bar> \<le> \<bar>fl (fst p - t)\<bar>" if "p \<in> set b" for p
          using below_last[OF that] False by linarith
        then show ?thesis using pick_hd res False ine by simp
      qed
    qed
  qed
qed

lemma key_below_in_prefix:
  assumes "sorted_keys m" and "p \<in> set m" and "fst p < t"
  shows "p \<in> set (takeWhile (\<lambda>p. fst p < t) m)"
proof (rule ccontr)
  assume "p \<notin> set (takeWhile (\<lambda>p. fst p < t) m)"
  moreover have "set m = set (takeWhile (\<lambda>p. fst p < t) m) \<union> set (dropWhile (\<lambda>p. fst p < t) m)"
    by (metis set_append takeWhile_dropWhile_id)
  ultimately have pin: "p \<in> set (dropWhile (\<lambda>p. fst p < t) m)" using assms(2) by blast
  then have "dropWhile (\<lambda>p. fst p < t) m \<noteq> []" by (metis empty_iff empty_set)
  then have "t \<le> fst (hd (dropWhile (\<lambda>p. fst p < t) m))" by (rule hd_above_target)
  moreover have "fst (hd (dropWhile (\<lambda>p. fst p < t) m)) \<le> fst p"
    using sorted_hd_min[OF sorted_keys_parts(2)[OF assms(1)] pin] .
  ultimately show False using assms(3) by linarith
qed

lemma key_above_in_suffix:
  assumes "p \<in> set m" and "t \<le> fst p"
  shows "p \<in> set (dropWhile (\<lambda>p. fst p < t) (m::lum_map))"
proof -
  have "set m = set (takeWhile (\<lambda>p. fst p < t) m) \<union> set (dropWhile (\<lambda>p. fst p < t) m)"
    by (metis set_append takeWhile_dropWhile_id)
  moreover have "p \<notin> set (takeWhile (\<lambda>p. fst p < t) m)"
    using below_keys[of p t m] assms(2) by auto
  ultimately show ?thesis using assms(1) by blast
qed

lemma sorted_keys_unique:
  "sorted_keys m \<Longrightarrow> (k, v) \<in> set m \<Longrightarrow> (k, v') \<in> set m \<Longrightarrow> v = v'"
  unfolding sorted_keys_def strict_sorted_iff by (blast intro: eq_key_imp_eq_value)

lemma tie_returns_upper:
  assumes srt: "sorted_keys m"
    and m1: "(L1, v1) \<in> set m" and m2: "(L2, v2) \<in> set m"
    and lt: "L1 < L2"
    and adj: "\<forall>p\<in>set m. \<not> (L1 < fst p \<and> fst p < L2)"
    and tie: "L2 - t = t - L1"
  shows "getClosestLuminanceMatch m t = v2"
proof -
  define b where "b = takeWhile (\<lambda>p. fst p < t) m"
  define it where "it = dropWhile (\<lambda>p. fst p < t) m"
  have ne: "m \<noteq> []" using m1 by auto
  have t1: "L1 < t" and t2: "t < L2" using lt tie by linarith+
  have inb: "(L1, v1) \<in> set b" unfolding b_def using key_below_in_prefix[OF srt m1] t1 by simp
  have ini: "(L2, v2) \<in> set it" unfolding it_def using key_above_in_suffix[OF m2] t2 by simp
  have bne: "b \<noteq> []" and ine: "it \<noteq> []" using inb ini by auto
  have lb: "last b \<in> set b" and hb: "hd it \<in> set it" using bne ine by simp_all
  have lbm: "last b \<in> set m" using lb unfolding b_def by (auto dest: set_takeWhileD)
  have hbm: "hd it \<in> set m" using hb unfolding it_def by (auto dest: set_dropWhileD)
  have "fst (last b) < t" using below_keys[of "last b" t m] lb unfolding b_def by simp
  moreover have "L1 \<le> fst (last b)"
    using sorted_last_max[OF sorted_keys_parts(1)[OF srt, of t], of "(L1, v1)"] inb
    unfolding b_def by simp
  ultimately have kl: "fst (last b) = L1" using adj lbm t2 by force
  have "t \<le> fst (hd it)" using hd_above_target[of t m] ine unfolding it_def by simp
  moreover have "fst (hd it) \<le> L2"
    using sorted_hd_min[OF sorted_keys_parts(2)[OF srt, of t], of "(L2, v2)"] ini
    unfolding it_def by simp
  ultimately have kh: "fst (hd it) = L2" using adj hbm t1 by force
  have "(L2, snd (hd it)) \<in> set m" using hbm kh by (metis prod.collapse)
  then have vh: "snd (hd it) = v2" using sorted_keys_unique[OF srt _ m2] by blast
  have "getClosestLuminanceMatch m t =
         (if \<bar>fl (fst (last b) - t)\<bar> < \<bar>fl (fst (hd it) - t)\<bar>
          then snd (last b) else snd (hd it))"
    unfolding b_def it_def
    using closest_between[OF ne] ine[unfolded it_def] bne[unfolded b_def] by blast
  moreover have "\<not> \<bar>fl (fst (last b) - t)\<bar> < \<bar>fl (fst (hd it) - t)\<bar>"
  proof -
    have "fst (last b) - t = - (fst (hd it) - t)" using kl kh tie by simp
    then have "fl (fst (last b) - t) = - fl (fst (hd it) - t)" by (simp only: fl_minus)
    then show ?thesis by simp
  qed
  ultimately show ?thesis using vh by simp
qed

subsection \<open>Nearest row\<close>

text \<open>
  C3, as amended.  For a non-empty calibration mapping
  \<open>getClosestLuminanceMatch\<close> returns a row whose computed distance, the
  absolute value of the rounded difference between its stored luminance and
  the target, is minimal over all stored luminances; a stored luminance that
  is nearer to the target in exact arithmetic has the same computed distance.
  A target equal to a stored luminance returns that row; for the empty mapping
  the result is the row with all fields -1.
\<close>

theorem nearest_calibration_row:
  "(sorted_keys m \<and> m \<noteq> []
      \<longrightarrow> (\<exists>k. (k, getClosestLuminanceMatch m t) \<in> set m
             \<and> (\<forall>p\<in>set m. \<bar>fl (k - t)\<bar> \<le> \<bar>fl (fst p - t)\<bar>)
             \<and> (\<forall>p\<in>set m. \<bar>fst p - t\<bar> < \<bar>k - t\<bar>
                              \<longrightarrow> \<bar>fl (fst p - t)\<bar> = \<bar>fl (k - t)\<bar>)))
   \<and> (sorted_keys m \<and> (t, v) \<in> set m \<longrightarrow> getClosestLuminanceMatch m t = v)
   \<and> getClosestLuminanceMatch [] t = \<lparr>luminance = -1, avgSize = -1, count = -1, stdDev = -1\<rparr>"
proof (intro conjI impI)
  assume a: "sorted_keys m \<and> m \<noteq> []"
  then obtain k where mem: "(k, getClosestLuminanceMatch m t) \<in> set m"
    and least: "\<forall>p\<in>set m. \<bar>fl (k - t)\<bar> \<le> \<bar>fl (fst p - t)\<bar>"
    using closest_is_minimal[of m t] by blast
  have "\<bar>fl (fst p - t)\<bar> = \<bar>fl (k - t)\<bar>" if pm: "p \<in> set m" and nearer: "\<bar>fst p - t\<bar> < \<bar>k - t\<bar>" for p
  proof -
    from nearer have "\<bar>fst p - t\<bar> \<le> \<bar>k - t\<bar>" by simp
    then have "\<bar>fl (fst p - t)\<bar> \<le> \<bar>fl (k - t)\<bar>" by (rule rounded_distance_mono)
    with least pm show ?thesis by fastforce
  qed
  with mem least show "\<exists>k. (k, getClosestLuminanceMatch m t) \<in> set m
             \<and> (\<forall>p\<in>set m. \<bar>fl (k - t)\<bar> \<le> \<bar>fl (fst p - t)\<bar>)
             \<and> (\<forall>p\<in>set m. \<bar>fst p - t\<bar> < \<bar>k - t\<bar>
                              \<longrightarrow> \<bar>fl (fst p - t)\<bar> = \<bar>fl (k - t)\<bar>)" by blast
next
  assume a: "sorted_keys m \<and> (t, v) \<in> set m"
  then have ne: "m \<noteq> []" by auto
  from a obtain k where mem: "(k, getClosestLuminanceMatch m t) \<in> set m"
    and least: "\<forall>p\<in>set m. \<bar>fl (k - t)\<bar> \<le> \<bar>fl (fst p - t)\<bar>"
    using closest_is_minimal[OF _ ne, of t] by blast
  from least a have "\<bar>fl (k - t)\<bar> \<le> \<bar>fl (fst (t, v) - t)\<bar>" by blast
  then have "fl (k - t) = 0" by (simp add: fl_zero)
  then have "k = t" by (simp add: fl_eq_0_iff)
  with mem a show "getClosestLuminanceMatch m t = v"
    using sorted_keys_unique[of m t] by blast
next
  show "getClosestLuminanceMatch [] t = \<lparr>luminance = -1, avgSize = -1, count = -1, stdDev = -1\<rparr>"
    by (simp add: getClosestLuminanceMatch_def invalid_row_def)
qed

lemma scenario_lookups:
  "getClosestLuminanceMatch scenario_map 14 = row10"
  "getClosestLuminanceMatch scenario_map 15 = row20"
  "getClosestLuminanceMatch scenario_map 20 = row20"
  by (simp_all add: getClosestLuminanceMatch_def scenario_map_def fl_small_numerals fl_zero)

theorem nearest_calibration_row_witness:
  "sorted_keys scenario_map \<and> scenario_map \<noteq> []
   \<and> getClosestLuminanceMatch scenario_map 14 = row10
   \<and> getClosestLuminanceMatch scenario_map 20 = row20"
proof -
  have s: "sorted_keys scenario_map" by (simp add: sorted_keys_def scenario_map_def)
  have n: "scenario_map \<noteq> []" by (simp add: scenario_map_def)
  have i: "(20, row20) \<in> set scenario_map" by (simp add: scenario_map_def)
  from nearest_calibration_row[of scenario_map 14] s n
  obtain k where k: "(k, getClosestLuminanceMatch scenario_map 14) \<in> set scenario_map"
    and m: "\<forall>p\<in>set scenario_map. \<bar>fl (k - 14)\<bar> \<le> \<bar>fl (fst p - 14)\<bar>" by blast
  from m have "\<bar>fl (k - 14)\<bar> \<le> \<bar>fl (10 - 14)\<bar>" by (simp add: scenario_map_def)
  moreover from k have "k = 10 \<or> k = 20" by (auto simp: scenario_map_def)
  ultimately have "k \<noteq> 20" by (auto simp: fl_small_numerals)
  with k have a: "getClosestLuminanceMatch scenario_map 14 = row10"
    by (auto simp: scenario_map_def)
  from nearest_calibration_row[of scenario_map 20 row20] s i
  have b: "getClosestLuminanceMatch scenario_map 20 = row20" by blast
  from s n a b show ?thesis by blast
qed

text \<open>
  The luminances 1.2 and 20.2 with the target 10.7, as doubles: the target is
  not equidistant from the two and the row of 1.2 is the nearer one, but both
  differences round to 9.5 and the row of 20.2 is returned.
\<close>

lemma rounding_map_values:
  "fl 1.2 = 5404319552844595 / 2 ^ 52"
  "fl 20.2 = 5685794529555251 / 2 ^ 48"
  "fl 10.7 = 3011782250804019 / 2 ^ 48"
  using fl_binade[of 0 "1.2"] fl_binade[of 4 "20.2"] fl_binade[of 3 "10.7"]
  by (simp_all add: rne_def)

lemma rounding_map_differences:
  "fl (42784196460019709 / 4503599627370496) = 19 / 2"
  "fl (19 / 2) = 19 / 2"
  using fl_binade[of 3 "42784196460019709 / 4503599627370496"] fl_binade[of 3 "19 / 2"]
  by (simp_all add: rne_def)

theorem nearest_by_exact_distance_counterexample:
  "sorted_keys rounding_map \<and> rounding_map \<noteq> []
   \<and> fl 10.7 - fl 1.2 \<noteq> fl 20.2 - fl 10.7
   \<and> \<bar>fl 1.2 - fl 10.7\<bar> < \<bar>fl 20.2 - fl 10.7\<bar>
   \<and> getClosestLuminanceMatch rounding_map (fl 10.7) = rowB
   \<and> rowB \<noteq> rowA"
  unfolding rounding_map_def rowA_def rowB_def rounding_map_values
  by (simp add: getClosestLuminanceMatch_def sorted_keys_def rounding_map_differences fl_minus)

text \<open>
  C4, as amended.  When the target is exactly halfway between two neighbouring
  stored luminances \<open>L1 < L2\<close> (no stored luminance lies strictly between
  them), the comparison \<open>abs(lower - target) < abs(it - target)\<close> is false and
  the row of the higher luminance \<open>L2\<close>, the \<open>lower_bound\<close> candidate, is
  returned.
\<close>

theorem tie_returns_upper_adjacent:
  assumes "sorted_keys m"
    and "(L1, v1) \<in> set m" and "(L2, v2) \<in> set m"
    and "L1 < L2"
    and "\<forall>p\<in>set m. \<not> (L1 < fst p \<and> fst p < L2)"
    and "L2 - t = t - L1"
  shows "getClosestLuminanceMatch m t = v2"
  using assms by (rule tie_returns_upper)

theorem tie_returns_upper_adjacent_witness:
  "getClosestLuminanceMatch scenario_map 15 = row20"
proof -
  have "sorted_keys scenario_map" by (simp add: sorted_keys_def scenario_map_def)
  moreover have "(10, row10) \<in> set scenario_map" and "(20, row20) \<in> set scenario_map"
    by (simp_all add: scenario_map_def)
  moreover have "\<forall>p\<in>set scenario_map. \<not> (10 < fst p \<and> fst p < 20)"
    by (simp add: scenario_map_def)
  moreover have "(20::real) - 15 = 15 - 10" by simp
  ultimately show ?thesis
    using tie_returns_upper_adjacent[of scenario_map 10 row10 20 row20 15] by simp
qed

text \<open>
  The mapping of the third scenario with the target 15, halfway between 10 and
  20: the row returned is the one of 20, not the one of 10.
\<close>

theorem tie_returns_lower_counterexample:
  "sorted_keys scenario_map
   \<and> (10, row10) \<in> set scenario_map \<and> (20, row20) \<in> set scenario_map
   \<and> (20::real) - 15 = 15 - 10
   \<and> getClosestLuminanceMatch scenario_map 15 = row20 \<and> row20 \<noteq> row10"
  by (simp add: scenario_lookups)
     (simp add: scenario_map_def row10_def row20_def sorted_keys_def)

section \<open>Properties of the significance test\<close>

lemma cauchy_cdf_bounds: "0 \<le> x \<Longrightarrow> 1 / 2 \<le> cauchy_cdf df x \<and> cauchy_cdf df x \<le> 1"
proof -
  assume x: "0 \<le> x"
  then have a0: "0 \<le> arctan x" by simp
  have a1: "arctan x < pi / 2" by (rule arctan_ubound)
  have "arctan x / pi \<le> (pi / 2) / pi"
    using a1 pi_gt_zero by (intro divide_right_mono) simp_all
  then have "arctan x / pi \<le> 1 / 2" by simp
  moreover have "0 \<le> arctan x / pi" using a0 pi_gt_zero by simp
  ultimately show ?thesis unfolding cauchy_cdf_def by linarith
qed

text \<open>
  C2.  \<open>computeTTest\<close> returns -1 exactly when \<open>n1 < 2\<close> or \<open>n2 < 2\<close> or the
  pooled variance \<open>std1\<^sup>2 / n1 + std2\<^sup>2 / n2\<close> is zero.  In every other case it
  returns \<open>2 * (1 - F \<bar>t\<bar>)\<close> with \<open>t = (mean1 - mean2) / sqrt\<close> of the pooled
  variance and \<open>F\<close> the CDF for \<open>min n1 n2 - 1\<close> degrees of freedom, and this value
  lies between 0 and 1.  The CDF is a parameter; what is used of it is that at
  a point \<open>x \<ge> 0\<close> it lies between 1/2 and 1, as the CDF of a distribution
  symmetric about zero does.
\<close>

theorem computeTTest_sentinel_and_pvalue:
  assumes cdf: "\<forall>df x. 1 \<le> df \<and> 0 \<le> x \<longrightarrow> 1 / 2 \<le> cdf df x \<and> cdf df x \<le> 1"
  shows "(computeTTest cdf mean1 std1 n1 mean2 std2 n2 = -1
            \<longleftrightarrow> n1 < 2 \<or> n2 < 2 \<or> std1 ^ 2 / of_int n1 + std2 ^ 2 / of_int n2 = 0)
         \<and> (\<not> (n1 < 2 \<or> n2 < 2 \<or> std1 ^ 2 / of_int n1 + std2 ^ 2 / of_int n2 = 0)
              \<longrightarrow> computeTTest cdf mean1 std1 n1 mean2 std2 n2
                    = 2 * (1 - cdf (min n1 n2 - 1)
                             \<bar>(mean1 - mean2) / sqrt (std1 ^ 2 / of_int n1 + std2 ^ 2 / of_int n2)\<bar>)
                  \<and> 0 \<le> computeTTest cdf mean1 std1 n1 mean2 std2 n2
                  \<and> computeTTest cdf mean1 std1 n1 mean2 std2 n2 \<le> 1)"
proof (cases "n1 < 2 \<or> n2 < 2 \<or> std1 ^ 2 / of_int n1 + std2 ^ 2 / of_int n2 = 0")
  case True
  then have "computeTTest cdf mean1 std1 n1 mean2 std2 n2 = -1"
    by (auto simp: computeTTest_def Let_def)
  with True show ?thesis by simp
next
  case False
  define t where "t = \<bar>(mean1 - mean2) / sqrt (std1 ^ 2 / of_int n1 + std2 ^ 2 / of_int n2)\<bar>"
  from False have df: "1 \<le> min n1 n2 - 1" by simp
  have t0: "0 \<le> t" by (simp add: t_def)
  from cdf df t0 have b: "1 / 2 \<le> cdf (min n1 n2 - 1) t \<and> cdf (min n1 n2 - 1) t \<le> 1" by blast
  from False have eq: "computeTTest cdf mean1 std1 n1 mean2 std2 n2 = 2 * (1 - cdf (min n1 n2 - 1) t)"
    by (simp add: computeTTest_def Let_def t_def)
  from b have "0 \<le> 2 * (1 - cdf (min n1 n2 - 1) t)" and "2 * (1 - cdf (min n1 n2 - 1) t) \<le> 1"
    by simp_all
  with eq False show ?thesis unfolding t_def by simp
qed

theorem computeTTest_sentinel_and_pvalue_witness:
  "computeTTest cauchy_cdf 5 0.2 2 5 0.2 2 = 1
   \<and> computeTTest cauchy_cdf 5 0.2 1 5 0.2 2 = -1
   \<and> computeTTest cauchy_cdf 5 0 2 5 0 2 = -1"
proof -
  have h: "\<forall>df x. 1 \<le> df \<and> 0 \<le> x \<longrightarrow> 1 / 2 \<le> cauchy_cdf df x \<and> cauchy_cdf df x \<le> 1"
    using cauchy_cdf_bounds by blast
  have "computeTTest cauchy_cdf 5 0.2 2 5 0.2 2 = 2 * (1 - cauchy_cdf 1 0)"
    using computeTTest_sentinel_and_pvalue[OF h, of 5 "0.2" 2 5 "0.2" 2] by simp
  also have "\<dots> = 1" by (simp add: cauchy_cdf_def)
  finally have a: "computeTTest cauchy_cdf 5 0.2 2 5 0.2 2 = 1" .
  have b: "computeTTest cauchy_cdf 5 0.2 1 5 0.2 2 = -1"
    using computeTTest_sentinel_and_pvalue[OF h, of 5 "0.2" 1 5 "0.2" 2] by simp
  have c: "computeTTest cauchy_cdf 5 0 2 5 0 2 = -1"
    using computeTTest_sentinel_and_pvalue[OF h, of 5 0 2 5 0 2] by simp
  from a b c show ?thesis by blast
qed

section \<open>Properties of the summary statistics\<close>

lemma fold_squares:
  "fold (\<lambda>val variance. variance + (val - m) ^ 2) vs a
     = a + sum_list (map (\<lambda>v. (v - m) ^ 2) vs :: real list)"
  by (induction vs arbitrary: a) (simp_all add: algebra_simps)













section \<open>Properties of the window extractor\<close>

subsection \<open>The loop computes the two windows\<close>

text \<open>
  With a left pupil column of at least 1 and a right pupil column of at least
  0, every cell the loop reads lies inside its row, and the loop ends with the
  accumulators of the two windows.
\<close>

lemma read_row_in_range:
  assumes "1 \<le> l" and "0 \<le> r" and "0 \<le> tc" and "tc \<le> max l r"
  shows "read_row stod tc l r row \<noteq> Inl e"
  using assms
  by (auto simp: read_row_def at_index_def split: option.splits)

lemma row_step_parsed:
  assumes "1 \<le> l" and "0 \<le> r" and "0 \<le> tc" and "tc \<le> max l r"
  shows "row_step stod tc l r bT aT row ws =
     Inr (case parsed_samples stod tc l r [row] of
            [] \<Rightarrow> ws
          | s # _ \<Rightarrow>
             (if fl (bT - 5) \<le> s_time s \<and> s_time s \<le> bT
              then accumulate (s_left s) (s_right s) (s_lum s) (fst ws) else fst ws,
              if aT \<le> s_time s \<and> s_time s \<le> fl (aT + 5)
              then accumulate (s_left s) (s_right s) (s_lum s) (snd ws) else snd ws))"
proof (cases "read_row stod tc l r row")
  case (Inl e)
  with read_row_in_range[OF assms] show ?thesis by blast
next
  case (Inr x)
  then show ?thesis
    by (cases x)
       (auto simp: row_step_def parsed_samples_def List.map_filter_simps
          s_time_def s_left_def s_right_def s_lum_def)
qed

lemma parsed_samples_Cons:
  "parsed_samples stod tc l r (row # rows) =
     parsed_samples stod tc l r [row] @ parsed_samples stod tc l r rows"
  by (simp add: parsed_samples_def List.map_filter_simps split: sum.splits option.splits)

lemma parsed_samples_single:
  "parsed_samples stod tc l r [row] = [] \<or> (\<exists>s. parsed_samples stod tc l r [row] = [s])"
  by (simp add: parsed_samples_def List.map_filter_simps split: sum.splits option.splits)

lemma extract_loop_windows:
  assumes "1 \<le> l" and "0 \<le> r" and "0 \<le> tc" and "tc \<le> max l r"
  shows "extract_loop stod tc l r bT aT rows ws =
     Inr (absorb (fst ws) (spec_window (fl (bT - 5)) bT (parsed_samples stod tc l r rows)),
          absorb (snd ws) (spec_window aT (fl (aT + 5)) (parsed_samples stod tc l r rows)))"
proof (induction rows arbitrary: ws)
  case Nil
  show ?case by (simp add: absorb_def spec_window_def parsed_samples_def List.map_filter_simps)
next
  case (Cons row rows)
  from parsed_samples_single[of stod tc l r row]
  show ?case
  proof
    assume e: "parsed_samples stod tc l r [row] = []"
    then have "row_step stod tc l r bT aT row ws = Inr ws"
      using row_step_parsed[OF assms, of stod bT aT row ws] by simp
    then show ?thesis
      using Cons.IH[of ws] e parsed_samples_Cons[of stod tc l r row rows] by simp
  next
    assume "\<exists>s. parsed_samples stod tc l r [row] = [s]"
    then obtain s where s: "parsed_samples stod tc l r [row] = [s]" by blast
    define ws' where "ws' =
       (if fl (bT - 5) \<le> s_time s \<and> s_time s \<le> bT
        then accumulate (s_left s) (s_right s) (s_lum s) (fst ws) else fst ws,
        if aT \<le> s_time s \<and> s_time s \<le> fl (aT + 5)
        then accumulate (s_left s) (s_right s) (s_lum s) (snd ws) else snd ws)"
    have step: "row_step stod tc l r bT aT row ws = Inr ws'"
      using row_step_parsed[OF assms, of stod bT aT row ws] s by (simp add: ws'_def)
    have ps: "parsed_samples stod tc l r (row # rows) = s # parsed_samples stod tc l r rows"
      using parsed_samples_Cons[of stod tc l r row rows] s by simp
    show ?thesis
      using Cons.IH[of ws'] step
      by (simp add: ps spec_window_def absorb_def ws'_def)
  qed
qed

lemma absorb_fields:
  "absorb w ss =
     \<lparr>sumLeft = sumLeft w + sum_list (valid_values (map s_left ss)),
      leftcount = leftcount w + length (valid_values (map s_left ss)),
      leftvec = leftvec w @ valid_values (map s_left ss),
      sumRight = sumRight w + sum_list (valid_values (map s_right ss)),
      rightcount = rightcount w + length (valid_values (map s_right ss)),
      rightvec = rightvec w @ valid_values (map s_right ss),
      luminancesum = luminancesum w + sum_list (valid_values (map s_lum ss)),
      luminancecnt = luminancecnt w + length (valid_values (map s_lum ss)),
      rowcount = rowcount w + length ss\<rparr>"
proof (induction ss arbitrary: w)
  case Nil
  show ?case by (simp add: absorb_def valid_values_def)
next
  case (Cons s ss)
  have "absorb w (s # ss) = absorb (accumulate (s_left s) (s_right s) (s_lum s) w) ss"
    by (simp add: absorb_def)
  also note Cons.IH
  finally show ?case
    by (simp add: accumulate_def Let_def valid_values_def)
qed

lemma absorb_init: "absorb window_init ss = summarise ss"
  by (simp add: absorb_fields summarise_def window_init_def)


lemma calculatePupilAverages_noshook_windows:
  assumes "1 \<le> l" and "0 \<le> r" and "0 \<le> tc" and "tc \<le> max l r"
    and "eventRow \<noteq> -1" and "event_time stod data eventRow tc = Inr t"
  shows "calculatePupilAverages_noshook stod data tc l r eventRow =
     Inr (window_report
            (summarise (spec_window (fl (t - 5)) t (parsed_samples stod tc l r (drop 1 data))))
            (summarise (spec_window (fl (t + fl 0.229)) (fl (fl (t + fl 0.229) + 5))
                          (parsed_samples stod tc l r (drop 1 data)))))"
  using assms(5,6)
  by (simp add: calculatePupilAverages_noshook_def Let_def
        extract_loop_windows[OF assms(1-4)] absorb_init)

lemma calculatePupilAverages_shook_windows:
  assumes "1 \<le> l" and "0 \<le> r" and "0 \<le> tc" and "tc \<le> max l r"
    and "event_time stod data rowFor02 tc = Inr t"
    and "event_time stod data rowForShook tc = Inr t2"
  shows "calculatePupilAverages_shook stod data tc l r rowFor02 rowForShook =
     Inr (window_report
            (summarise (spec_window (fl (t - 5)) t (parsed_samples stod tc l r (drop 1 data))))
            (summarise (spec_window t2 (fl (t2 + 5)) (parsed_samples stod tc l r (drop 1 data)))))"
  using assms(5,6)
  by (simp add: calculatePupilAverages_shook_def
        extract_loop_windows[OF assms(1-4)] absorb_init)

lemma window_report_nth:
  "window_report b a ! 0 = window_avg (luminancecnt b) (rowcount b) (luminancesum b)"
  "window_report b a ! 1 = window_avg (leftcount b) (rowcount b) (sumLeft b)"
  "window_report b a ! 2 = Fin (real (length (leftvec b)))"
  "window_report b a ! 3 = calculateStdDev (leftvec b) (window_avg (leftcount b) (rowcount b) (sumLeft b))"
  "window_report b a ! 4 = window_avg (rightcount b) (rowcount b) (sumRight b)"
  "window_report b a ! 5 = Fin (real (length (rightvec b)))"
  "window_report b a ! 6 = calculateStdDev (rightvec b) (window_avg (rightcount b) (rowcount b) (sumRight b))"
  "window_report b a ! 7 = window_avg (luminancecnt a) (rowcount a) (luminancesum a)"
  "window_report b a ! 8 = window_avg (leftcount a) (rowcount a) (sumLeft a)"
  "window_report b a ! 9 = Fin (real (length (leftvec a)))"
  "window_report b a ! 10 = calculateStdDev (leftvec a) (window_avg (leftcount a) (rowcount a) (sumLeft a))"
  "window_report b a ! 11 = window_avg (rightcount a) (rowcount a) (sumRight a)"
  "window_report b a ! 12 = Fin (real (length (rightvec a)))"
  "window_report b a ! 13 = calculateStdDev (rightvec b) (window_avg (rightcount b) (rowcount b) (sumRight b))"
  by (simp_all add: window_report_def Let_def)

lemma valid_values_pos: "v \<in> set (valid_values vs) \<Longrightarrow> 0 < v"
  by (simp add: valid_values_def)

lemma sum_list_pos_real: "xs \<noteq> [] \<Longrightarrow> \<forall>x\<in>set xs. 0 < x \<Longrightarrow> 0 < sum_list (xs :: real list)"
proof (induction xs)
  case Nil
  then show ?case by simp
next
  case (Cons x xs)
  then show ?case by (cases "xs = []") (auto intro: add_pos_pos)
qed

lemma valid_mean_pos:
  assumes "valid_values vs \<noteq> []"
  shows "0 < mean_of (valid_values vs)"
proof -
  have "0 < sum_list (valid_values vs)"
    using assms valid_values_pos by (intro sum_list_pos_real) blast+
  moreover have "0 < real (length (valid_values vs))" using assms by simp
  ultimately show ?thesis unfolding mean_of_def by (rule divide_pos_pos)
qed


lemma summarise_simps:
  "sumLeft (summarise ss) = sum_list (valid_values (map s_left ss))"
  "leftcount (summarise ss) = length (valid_values (map s_left ss))"
  "leftvec (summarise ss) = valid_values (map s_left ss)"
  "sumRight (summarise ss) = sum_list (valid_values (map s_right ss))"
  "rightcount (summarise ss) = length (valid_values (map s_right ss))"
  "rightvec (summarise ss) = valid_values (map s_right ss)"
  "luminancesum (summarise ss) = sum_list (valid_values (map s_lum ss))"
  "luminancecnt (summarise ss) = length (valid_values (map s_lum ss))"
  "rowcount (summarise ss) = length ss"
  by (simp_all add: summarise_def)

subsection \<open>The example recording\<close>

lemma stod_cells:
  "stod_plain ''0.0'' = Some 0"
  "stod_plain ''1.0'' = Some 1"
  "stod_plain ''2.0'' = Some 2"
  "stod_plain ''3.0'' = Some 3"
  "stod_plain ''4.0'' = Some 4"
  "stod_plain ''5.0'' = Some 5"
  "stod_plain ''10'' = Some 10"
  "stod_plain ''12'' = Some 12"
  "stod_plain ''-1'' = Some (-1)"
  "stod_plain ''00001'' = Some 1"
  "stod_plain ''00002'' = Some 2"
  by (simp_all add: stod_plain_def isspace_def is_digit_def digits_value_def
        fl_small_numerals fl_zero)

lemma header_columns:
  "findPupilColumns header_row = (2, 3)"
  "eventColumn_loop header_row 0 = 4"
  by (simp_all add: header_row_def findPupilColumns_def trim_def isspace_def)

lemma recording_events:
  "findEventRow recording = 3"
  "findEventRows recording 4 = (3, 5)"
  by (simp_all add: recording_def header_row_def findEventRow_def findEventRows_def)

lemma recording_event_times:
  "event_time stod_plain recording 3 0 = Inr 2"
  "event_time stod_plain recording 5 0 = Inr 4"
  by (simp_all add: recording_def event_time_def at_index_def stod_cells)

lemma recording_samples:
  "parsed_samples stod_plain 0 2 3 (drop 1 recording) =
     [(0, 4, 1, 10), (1, -1, 3, 10), (2, 4, 5, 10), (3, 4, 3, 12), (4, 4, 3, 12), (5, 4, 3, 12)]"
  by (simp add: recording_def parsed_samples_def List.map_filter_simps read_row_def at_index_def
        stod_cells)

text \<open>The rounded bounds of the windows around the tag at time 2 and "shook" at time 4.\<close>

lemma literal_229: "fl 0.229 = 8250594517342749 / 2 ^ 55"
  using fl_binade[of "-3" "0.229"] by (simp add: rne_def)

lemma window_bounds:
  "fl (2 - 5) = - 3"
  "fl (2 + fl 0.229) = 2509630892352209 / 2 ^ 50"
  "fl (2509630892352209 / 2 ^ 50 + 5) = 8139130426565329 / 2 ^ 50"
  "fl (4 + 5) = 9"
proof -
  show "fl (2 - 5) = - 3" "fl (4 + 5) = 9" by (simp_all add: fl_small_numerals)
  show "fl (2 + fl 0.229) = 2509630892352209 / 2 ^ 50"
    unfolding literal_229
    using fl_binade[of 1 "2 + 8250594517342749 / 2 ^ 55"] by (simp add: rne_def)
  show "fl (2509630892352209 / 2 ^ 50 + 5) = 8139130426565329 / 2 ^ 50"
    using fl_binade[of 2 "2509630892352209 / 2 ^ 50 + 5"] by (simp add: rne_def)
qed

lemma recording_windows:
  "spec_window (fl (2 - 5)) 2 (parsed_samples stod_plain 0 2 3 (drop 1 recording))
     = [(0, 4, 1, 10), (1, -1, 3, 10), (2, 4, 5, 10)]"
  "spec_window (fl (2 + fl 0.229)) (fl (fl (2 + fl 0.229) + 5)) (parsed_samples stod_plain 0 2 3 (drop 1 recording))
     = [(3, 4, 3, 12), (4, 4, 3, 12), (5, 4, 3, 12)]"
  "spec_window 4 (fl (4 + 5)) (parsed_samples stod_plain 0 2 3 (drop 1 recording))
     = [(4, 4, 3, 12), (5, 4, 3, 12)]"
  unfolding recording_samples window_bounds by (simp_all add: spec_window_def s_time_def)

lemma in_range_columns: "(1::int) \<le> 2" "(0::int) \<le> 3" "(0::int) \<le> 0" "(0::int) \<le> max 2 3"
  by simp_all

lemma tag_row_found: "(3::int) \<noteq> -1"
  by simp

lemma recording_noshook_output:
  "calculatePupilAverages_noshook stod_plain recording 0 2 3 3 =
     Inr [Fin 10, Fin 4, Fin 2, Fin 0, Fin 3, Fin 3, Fin 2,
          Fin 12, Fin 4, Fin 3, Fin 0, Fin 3, Fin 3, Fin 2]"
  unfolding calculatePupilAverages_noshook_windows[OF in_range_columns tag_row_found recording_event_times(1)]
    recording_windows
  by (simp add: Let_def window_report_def summarise_def valid_values_def window_avg_def ddiv_def
        calculateStdDev_def s_left_def s_right_def s_lum_def)

lemma recording_shook_output:
  "calculatePupilAverages_shook stod_plain recording 0 2 3 3 5 =
     Inr [Fin 10, Fin 4, Fin 2, Fin 0, Fin 3, Fin 3, Fin 2,
          Fin 12, Fin 4, Fin 2, Fin 0, Fin 3, Fin 2, Fin 2]"
  unfolding calculatePupilAverages_shook_windows[OF in_range_columns recording_event_times]
    recording_windows
  by (simp add: Let_def window_report_def summarise_def valid_values_def window_avg_def ddiv_def
        calculateStdDev_def s_left_def s_right_def s_lum_def)


lemma recording_cut_facts:
  "findEventRow recording_cut = 3"
  "event_time stod_plain recording_cut 3 0 = Inr 2"
  "parsed_samples stod_plain 0 2 3 (drop 1 recording_cut) =
     [(0, 4, 1, 10), (1, -1, 3, 10), (2, 4, 5, 10)]"
  "hd recording_cut = header_row"
  "recording_cut \<noteq> []"
  by (simp_all add: recording_cut_def recording_def findEventRow_def event_time_def at_index_def
        parsed_samples_def List.map_filter_simps read_row_def stod_cells header_row_def)

lemma recording_cut_windows:
  "spec_window (fl (2 - 5)) 2 (parsed_samples stod_plain 0 2 3 (drop 1 recording_cut))
     = [(0, 4, 1, 10), (1, -1, 3, 10), (2, 4, 5, 10)]"
  "spec_window (fl (2 + fl 0.229)) (fl (fl (2 + fl 0.229) + 5)) (parsed_samples stod_plain 0 2 3 (drop 1 recording_cut))
     = []"
  unfolding recording_cut_facts(3) window_bounds by (simp_all add: spec_window_def s_time_def)

lemma recording_cut_output:
  "calculatePupilAverages_noshook stod_plain recording_cut 0 2 3 3 =
     Inr [Fin 10, Fin 4, Fin 2, Fin 0, Fin 3, Fin 3, Fin 2,
          NaN, NaN, Fin 0, Fin (-1), NaN, Fin 0, Fin 2]"
  unfolding calculatePupilAverages_noshook_windows[OF in_range_columns tag_row_found recording_cut_facts(2)]
    recording_cut_windows
  by (simp add: Let_def window_report_def summarise_def valid_values_def window_avg_def ddiv_def
        calculateStdDev_def s_left_def s_right_def s_lum_def)

lemma recording_facts:
  "hd recording = header_row"
  "recording \<noteq> []"
  by (simp_all add: recording_def)

lemma file_index: "take 5 ''00001.csv'' = ''00001''" "take 5 ''00002.csv'' = ''00002''"
  "take 5 ''00003.csv'' = ''00003''" "take 5 ''00004.csv'' = ''00004''"
  "take 5 ''00005.csv'' = ''00005''"
  by simp_all

subsection \<open>Validity rule\<close>










subsection \<open>Time ranges\<close>

text \<open>
  C6, as amended.  The before window consists of exactly the samples with time
  in \<open>[fl (primaryAnchor - 5), primaryAnchor]\<close> and the after window of exactly
  those with time in \<open>[afterAnchor, fl (afterAnchor + 5)]\<close>, where \<open>fl\<close> is the
  rounding of the double operation and the after anchor is
  \<open>fl (primaryAnchor + fl 0.229)\<close> in noshookpupil.cpp and the time of the
  "shook" row itself in shookpupil.cpp.  The samples are the data rows that
  pass the length test and whose four cells convert.
\<close>

theorem window_time_ranges:
  assumes "1 \<le> l" and "0 \<le> r" and "0 \<le> tc" and "tc \<le> max l r"
  shows "(eventRow \<noteq> -1 \<and> event_time stod data eventRow tc = Inr t \<longrightarrow>
            extract_loop stod tc l r t (fl (t + fl 0.229)) (drop 1 data) (window_init, window_init)
              = Inr (summarise (spec_window (fl (t - 5)) t (parsed_samples stod tc l r (drop 1 data))),
                     summarise (spec_window (fl (t + fl 0.229)) (fl (fl (t + fl 0.229) + 5))
                                  (parsed_samples stod tc l r (drop 1 data))))
          \<and> calculatePupilAverages_noshook stod data tc l r eventRow
              = Inr (window_report
                       (summarise (spec_window (fl (t - 5)) t (parsed_samples stod tc l r (drop 1 data))))
                       (summarise (spec_window (fl (t + fl 0.229)) (fl (fl (t + fl 0.229) + 5))
                                     (parsed_samples stod tc l r (drop 1 data))))))
       \<and> (event_time stod data rowFor02 tc = Inr t0 \<and> event_time stod data rowForShook tc = Inr t1 \<longrightarrow>
            extract_loop stod tc l r t0 t1 (drop 1 data) (window_init, window_init)
              = Inr (summarise (spec_window (fl (t0 - 5)) t0 (parsed_samples stod tc l r (drop 1 data))),
                     summarise (spec_window t1 (fl (t1 + 5)) (parsed_samples stod tc l r (drop 1 data))))
          \<and> calculatePupilAverages_shook stod data tc l r rowFor02 rowForShook
              = Inr (window_report
                       (summarise (spec_window (fl (t0 - 5)) t0 (parsed_samples stod tc l r (drop 1 data))))
                       (summarise (spec_window t1 (fl (t1 + 5)) (parsed_samples stod tc l r (drop 1 data))))))"
  using calculatePupilAverages_noshook_windows[OF assms, of eventRow stod data t]
    calculatePupilAverages_shook_windows[OF assms, of stod data rowFor02 t0 rowForShook t1]
  by (simp add: extract_loop_windows[OF assms] absorb_init)

theorem window_time_ranges_witness:
  "calculatePupilAverages_noshook stod_plain recording 0 2 3 3
     = Inr (window_report
              (summarise [(0, 4, 1, 10), (1, -1, 3, 10), (2, 4, 5, 10)])
              (summarise [(3, 4, 3, 12), (4, 4, 3, 12), (5, 4, 3, 12)]))
   \<and> calculatePupilAverages_shook stod_plain recording 0 2 3 3 5
     = Inr (window_report
              (summarise [(0, 4, 1, 10), (1, -1, 3, 10), (2, 4, 5, 10)])
              (summarise [(4, 4, 3, 12), (5, 4, 3, 12)]))"
proof -
  have cols: "(1::int) \<le> 2" "(0::int) \<le> 3" "(0::int) \<le> 0" "(0::int) \<le> max 2 3" by simp_all
  note inst = window_time_ranges[OF cols, of 3 stod_plain recording 2 3 2 5 4]
  from inst recording_event_times show ?thesis
    unfolding recording_windows by simp
qed

text \<open>
  The windows with the exact bounds \<open>a\<close> and \<open>a + 5\<close> are not those of the
  code.  With the tag at time 10, the after anchor of noshookpupil.cpp is the
  double \<open>10 + 0.229\<close>, which is the double nearest to 10.229 and lies below the
  real number \<open>10 + 0.229\<close>: the row with the time "10.229" is collected.  With
  "shook" at the time "0.2", a double above one fifth, the upper bound of
  shookpupil.cpp is the double nearest to 5.2, which lies above the real number
  \<open>0.2 + 5\<close>: the row with the time "5.2" is collected.  With the tag at the
  time "0.2", the after anchor of noshookpupil.cpp is the double \<open>0.2 + 0.229\<close>,
  which lies above the double nearest to 0.429: the row with the time "0.429"
  is not collected, although the decimal numbers satisfy
  \<open>0.2 + 0.229 \<le> 0.429\<close>.
\<close>

lemma stod_cells_edge:
  "stod_plain ''0.2'' = Some (fl 0.2)"
  "stod_plain ''5.2'' = Some (fl 5.2)"
  "stod_plain ''10.0'' = Some 10"
  "stod_plain ''10.229'' = Some (fl 10.229)"
  "stod_plain ''0.429'' = Some (fl 0.429)"
  by (simp_all add: stod_plain_def isspace_def is_digit_def digits_value_def
        fl_small_numerals fl_zero)

lemma edge_values:
  "fl 0.2 = 3602879701896397 / 2 ^ 54"
  "fl 5.2 = 5854679515581645 / 2 ^ 50"
  "fl 10.229 = 719801884193325 / 2 ^ 46"
  "fl 0.429 = 7728176960567771 / 2 ^ 54"
  using fl_binade[of "-3" "0.2"] fl_binade[of 2 "5.2"] fl_binade[of 3 "10.229"]
    fl_binade[of "-2" "0.429"]
  by (simp_all add: rne_def)

lemma edge_bounds:
  "fl (10 - 5) = 5"
  "fl (0 - 5) = - 5"
  "fl (10 + 8250594517342749 / 2 ^ 55) = 719801884193325 / 2 ^ 46"
  "fl (719801884193325 / 2 ^ 46 + 5) = 1071645605081645 / 2 ^ 46"
  "fl (3602879701896397 / 2 ^ 54 + 5) = 5854679515581645 / 2 ^ 50"
  "fl (3602879701896397 / 2 ^ 54 - 5) = - (5404319552844595 / 2 ^ 50)"
  "fl (3602879701896397 / 2 ^ 54 + 8250594517342749 / 2 ^ 55) = 1932044240141943 / 2 ^ 52"
  "fl (1932044240141943 / 2 ^ 52 + 5) = 3056255297124303 / 2 ^ 49"
proof -
  show "fl (10 - 5) = 5" "fl (0 - 5) = - 5" by (simp_all add: fl_small_numerals)
  show "fl (10 + 8250594517342749 / 2 ^ 55) = 719801884193325 / 2 ^ 46"
    using fl_binade[of 3 "10 + 8250594517342749 / 2 ^ 55"] by (simp add: rne_def)
  show "fl (719801884193325 / 2 ^ 46 + 5) = 1071645605081645 / 2 ^ 46"
    using fl_binade[of 3 "719801884193325 / 2 ^ 46 + 5"] by (simp add: rne_def)
  show "fl (3602879701896397 / 2 ^ 54 + 5) = 5854679515581645 / 2 ^ 50"
    using fl_binade[of 2 "3602879701896397 / 2 ^ 54 + 5"] by (simp add: rne_def)
  show "fl (3602879701896397 / 2 ^ 54 - 5) = - (5404319552844595 / 2 ^ 50)"
    using fl_binade[of 2 "3602879701896397 / 2 ^ 54 - 5"] by (simp add: rne_def)
  show "fl (3602879701896397 / 2 ^ 54 + 8250594517342749 / 2 ^ 55) = 1932044240141943 / 2 ^ 52"
    using fl_binade[of "-2" "3602879701896397 / 2 ^ 54 + 8250594517342749 / 2 ^ 55"]
    by (simp add: rne_def)
  show "fl (1932044240141943 / 2 ^ 52 + 5) = 3056255297124303 / 2 ^ 49"
    using fl_binade[of 2 "1932044240141943 / 2 ^ 52 + 5"] by (simp add: rne_def)
qed

lemma recording_tag_edge_facts:
  "findEventRow recording_tag_edge = 1"
  "event_time stod_plain recording_tag_edge 1 0 = Inr 10"
  "parsed_samples stod_plain 0 2 3 (drop 1 recording_tag_edge) =
     [(10, 4, 3, 10), (fl 10.229, 4, 3, 10)]"
  by (simp_all add: recording_tag_edge_def header_row_def findEventRow_def
        event_time_def at_index_def parsed_samples_def List.map_filter_simps read_row_def
        stod_cells stod_cells_edge)

lemma recording_shook_edge_facts:
  "findEventRows recording_shook_edge 4 = (1, 2)"
  "event_time stod_plain recording_shook_edge 1 0 = Inr 0"
  "event_time stod_plain recording_shook_edge 2 0 = Inr (fl 0.2)"
  "parsed_samples stod_plain 0 2 3 (drop 1 recording_shook_edge) =
     [(0, 4, 3, 10), (fl 0.2, 4, 3, 10), (fl 5.2, 4, 3, 10)]"
  by (simp_all add: recording_shook_edge_def header_row_def findEventRows_def
        event_time_def at_index_def parsed_samples_def List.map_filter_simps read_row_def
        stod_cells stod_cells_edge)

lemma recording_sum_edge_facts:
  "findEventRow recording_sum_edge = 1"
  "event_time stod_plain recording_sum_edge 1 0 = Inr (fl 0.2)"
  "parsed_samples stod_plain 0 2 3 (drop 1 recording_sum_edge) =
     [(fl 0.2, 4, 3, 10), (fl 0.429, 4, 3, 10)]"
  by (simp_all add: recording_sum_edge_def header_row_def findEventRow_def
        event_time_def at_index_def parsed_samples_def List.map_filter_simps read_row_def
        stod_cells stod_cells_edge)

lemma recording_sum_edge_windows:
  "spec_window (fl (fl 0.2 - 5)) (fl 0.2) (parsed_samples stod_plain 0 2 3 (drop 1 recording_sum_edge))
     = [(fl 0.2, 4, 3, 10)]"
  "spec_window (fl (fl 0.2 + fl 0.229)) (fl (fl (fl 0.2 + fl 0.229) + 5))
       (parsed_samples stod_plain 0 2 3 (drop 1 recording_sum_edge))
     = []"
  unfolding recording_sum_edge_facts(3) literal_229 edge_values edge_bounds
  by (simp_all add: spec_window_def s_time_def)

lemma recording_tag_edge_windows:
  "spec_window (fl (10 - 5)) 10 (parsed_samples stod_plain 0 2 3 (drop 1 recording_tag_edge))
     = [(10, 4, 3, 10)]"
  "spec_window (fl (10 + fl 0.229)) (fl (fl (10 + fl 0.229) + 5))
       (parsed_samples stod_plain 0 2 3 (drop 1 recording_tag_edge))
     = [(fl 10.229, 4, 3, 10)]"
  "spec_window (10 + 0.229) (10 + 0.229 + 5)
       (parsed_samples stod_plain 0 2 3 (drop 1 recording_tag_edge))
     = []"
  unfolding recording_tag_edge_facts(3) literal_229 edge_values edge_bounds
  by (simp_all add: spec_window_def s_time_def)

lemma recording_shook_edge_windows:
  "spec_window (fl (0 - 5)) 0 (parsed_samples stod_plain 0 2 3 (drop 1 recording_shook_edge))
     = [(0, 4, 3, 10)]"
  "spec_window (fl 0.2) (fl (fl 0.2 + 5))
       (parsed_samples stod_plain 0 2 3 (drop 1 recording_shook_edge))
     = [(fl 0.2, 4, 3, 10), (fl 5.2, 4, 3, 10)]"
  "spec_window (fl 0.2) (fl 0.2 + 5)
       (parsed_samples stod_plain 0 2 3 (drop 1 recording_shook_edge))
     = [(fl 0.2, 4, 3, 10)]"
  unfolding recording_shook_edge_facts(4) edge_values edge_bounds
  by (simp_all add: spec_window_def s_time_def)

theorem exact_time_ranges_counterexample:
  "findEventRow recording_tag_edge = 1
   \<and> event_time stod_plain recording_tag_edge 1 0 = Inr 10
   \<and> spec_window (10 + 0.229) (10 + 0.229 + 5)
        (parsed_samples stod_plain 0 2 3 (drop 1 recording_tag_edge)) = []
   \<and> (\<exists>b a. extract_loop stod_plain 0 2 3 10 (fl (10 + fl 0.229)) (drop 1 recording_tag_edge)
               (window_init, window_init) = Inr (b, a)
          \<and> rowcount a = 1 \<and> leftvec a = [4] \<and> rightvec a = [3])
   \<and> (\<exists>out. calculatePupilAverages_noshook stod_plain recording_tag_edge 0 2 3 1 = Inr out
          \<and> out ! 7 = Fin 10 \<and> out ! 8 = Fin 4 \<and> out ! 9 = Fin 1)
   \<and> findEventRows recording_shook_edge 4 = (1, 2)
   \<and> event_time stod_plain recording_shook_edge 1 0 = Inr 0
   \<and> event_time stod_plain recording_shook_edge 2 0 = Inr (fl 0.2)
   \<and> length (spec_window (fl 0.2) (fl 0.2 + 5)
        (parsed_samples stod_plain 0 2 3 (drop 1 recording_shook_edge))) = 1
   \<and> (\<exists>b a. extract_loop stod_plain 0 2 3 0 (fl 0.2) (drop 1 recording_shook_edge)
               (window_init, window_init) = Inr (b, a)
          \<and> rowcount a = 2 \<and> leftvec a = [4, 4] \<and> rightvec a = [3, 3])
   \<and> (\<exists>out. calculatePupilAverages_shook stod_plain recording_shook_edge 0 2 3 1 2 = Inr out
          \<and> out ! 9 = Fin 2)
   \<and> findEventRow recording_sum_edge = 1
   \<and> event_time stod_plain recording_sum_edge 1 0 = Inr (fl 0.2)
   \<and> parsed_samples stod_plain 0 2 3 (drop 1 recording_sum_edge)
        = [(fl 0.2, 4, 3, 10), (fl 0.429, 4, 3, 10)]
   \<and> (0.2 + 0.229 \<le> (0.429 :: real) \<and> (0.429 :: real) \<le> 0.2 + 0.229 + 5)
   \<and> (\<exists>b a. extract_loop stod_plain 0 2 3 (fl 0.2) (fl (fl 0.2 + fl 0.229))
               (drop 1 recording_sum_edge) (window_init, window_init) = Inr (b, a)
          \<and> rowcount a = 0 \<and> leftvec a = [] \<and> rightvec a = [])
   \<and> (\<exists>out. calculatePupilAverages_noshook stod_plain recording_sum_edge 0 2 3 1 = Inr out
          \<and> out ! 9 = Fin 0)"
proof -
  have a: "\<exists>b a. extract_loop stod_plain 0 2 3 10 (fl (10 + fl 0.229)) (drop 1 recording_tag_edge)
               (window_init, window_init) = Inr (b, a)
          \<and> rowcount a = 1 \<and> leftvec a = [4] \<and> rightvec a = [3]"
    unfolding extract_loop_windows[OF in_range_columns] recording_tag_edge_windows
    by (simp add: absorb_init summarise_def valid_values_def s_left_def s_right_def s_lum_def)
  have found: "(1::int) \<noteq> -1" by simp
  have b: "\<exists>out. calculatePupilAverages_noshook stod_plain recording_tag_edge 0 2 3 1 = Inr out
          \<and> out ! 7 = Fin 10 \<and> out ! 8 = Fin 4 \<and> out ! 9 = Fin 1"
    unfolding calculatePupilAverages_noshook_windows[OF in_range_columns found recording_tag_edge_facts(2)]
      recording_tag_edge_windows
    by (simp add: Let_def window_report_def summarise_def valid_values_def window_avg_def ddiv_def
        calculateStdDev_def s_left_def s_right_def s_lum_def)
  have c: "\<exists>b a. extract_loop stod_plain 0 2 3 0 (fl 0.2) (drop 1 recording_shook_edge)
               (window_init, window_init) = Inr (b, a)
          \<and> rowcount a = 2 \<and> leftvec a = [4, 4] \<and> rightvec a = [3, 3]"
    unfolding extract_loop_windows[OF in_range_columns] recording_shook_edge_windows
    by (simp add: absorb_init summarise_def valid_values_def s_left_def s_right_def s_lum_def)
  have d: "\<exists>out. calculatePupilAverages_shook stod_plain recording_shook_edge 0 2 3 1 2 = Inr out
          \<and> out ! 9 = Fin 2"
    unfolding calculatePupilAverages_shook_windows[OF in_range_columns recording_shook_edge_facts(2,3)]
      recording_shook_edge_windows
    by (simp add: Let_def window_report_def summarise_def valid_values_def window_avg_def ddiv_def
        calculateStdDev_def s_left_def s_right_def s_lum_def)
  have e: "\<exists>b a. extract_loop stod_plain 0 2 3 (fl 0.2) (fl (fl 0.2 + fl 0.229))
               (drop 1 recording_sum_edge) (window_init, window_init) = Inr (b, a)
          \<and> rowcount a = 0 \<and> leftvec a = [] \<and> rightvec a = []"
    unfolding extract_loop_windows[OF in_range_columns] recording_sum_edge_windows
    by (simp add: absorb_init summarise_def valid_values_def s_left_def s_right_def s_lum_def)
  have f: "\<exists>out. calculatePupilAverages_noshook stod_plain recording_sum_edge 0 2 3 1 = Inr out
          \<and> out ! 9 = Fin 0"
    unfolding calculatePupilAverages_noshook_windows[OF in_range_columns found recording_sum_edge_facts(2)]
      recording_sum_edge_windows
    by (simp add: Let_def window_report_def summarise_def valid_values_def window_avg_def ddiv_def
        calculateStdDev_def s_left_def s_right_def s_lum_def)
  have g: "0.2 + 0.229 \<le> (0.429 :: real) \<and> (0.429 :: real) \<le> 0.2 + 0.229 + 5" by simp
  show ?thesis
    using a b c d e f g
    unfolding recording_tag_edge_facts(1,2) recording_shook_edge_facts(1,2,3)
      recording_tag_edge_windows(3) recording_shook_edge_windows(3)
      recording_sum_edge_facts
    by simp
qed

subsection \<open>Values above zero\<close>

lemma summarise_counts: "counts_only_positive (summarise rows) rows"
  by (simp add: counts_only_positive_def summarise_def valid_values_def)

lemma window_avg_positive:
  "positive_mean (window_avg (length (valid_values vs)) m (sum_list (valid_values vs))) vs m"
proof (cases "0 < m \<and> real (length (valid_values vs)) \<ge> 0.5 * real m")
  case False
  then show ?thesis unfolding positive_mean_def by blast
next
  case True
  then have "0 < real m" and "0.5 * real m \<le> real (length (valid_values vs))" by simp_all
  then have "0 < real (length (valid_values vs))" by linarith
  then have "length (valid_values vs) \<noteq> 0" by linarith
  then have ne: "valid_values vs \<noteq> []" by (simp only: length_0_conv not_False_eq_True)
  then have k: "real (length (valid_values vs)) \<noteq> 0" by simp
  have avg: "window_avg (length (valid_values vs)) m (sum_list (valid_values vs))
      = Fin (mean_of (valid_values vs))"
    using True k by (simp add: window_avg_def ddiv_def mean_of_def)
  show ?thesis
    unfolding positive_mean_def avg
    using valid_mean_pos[OF ne] ne valid_values_pos by blast
qed

lemma window_report_positive:
  "reported_positive (window_report (summarise wb) (summarise wa)) wb wa"
  unfolding reported_positive_def window_report_nth summarise_simps
  using window_avg_positive[of "map s_lum wb" "length wb"]
    window_avg_positive[of "map s_left wb" "length wb"]
    window_avg_positive[of "map s_right wb" "length wb"]
    window_avg_positive[of "map s_lum wa" "length wa"]
    window_avg_positive[of "map s_left wa" "length wa"]
    window_avg_positive[of "map s_right wa" "length wa"]
  by (simp only: length_map simp_thms)

text \<open>
  C10, as amended.  In both programs a pupil or luminance value enters the
  sum, the valid count and the list for the standard deviation of a window
  only if it is above zero, while its row is counted in the window's total in
  any case.  Every reported mean of a window that has at least one row and
  passes the validity rule is a positive number, the mean of positive values.
\<close>

theorem only_positive_values_count:
  assumes "1 \<le> l" and "0 \<le> r" and "0 \<le> tc" and "tc \<le> max l r"
  shows "(\<exists>b a. extract_loop stod tc l r bT aT rows (window_init, window_init) = Inr (b, a)
            \<and> counts_only_positive b (spec_window (fl (bT - 5)) bT (parsed_samples stod tc l r rows))
            \<and> counts_only_positive a (spec_window aT (fl (aT + 5)) (parsed_samples stod tc l r rows)))
       \<and> (eventRow \<noteq> -1 \<and> event_time stod data eventRow tc = Inr t \<longrightarrow>
            (\<exists>out. calculatePupilAverages_noshook stod data tc l r eventRow = Inr out
               \<and> reported_positive out
                   (spec_window (fl (t - 5)) t (parsed_samples stod tc l r (drop 1 data)))
                   (spec_window (fl (t + fl 0.229)) (fl (fl (t + fl 0.229) + 5))
                      (parsed_samples stod tc l r (drop 1 data)))))
       \<and> (event_time stod data rowFor02 tc = Inr t0 \<and> event_time stod data rowForShook tc = Inr t1 \<longrightarrow>
            (\<exists>out. calculatePupilAverages_shook stod data tc l r rowFor02 rowForShook = Inr out
               \<and> reported_positive out
                   (spec_window (fl (t0 - 5)) t0 (parsed_samples stod tc l r (drop 1 data)))
                   (spec_window t1 (fl (t1 + 5)) (parsed_samples stod tc l r (drop 1 data)))))"
proof (intro conjI impI)
  show "\<exists>b a. extract_loop stod tc l r bT aT rows (window_init, window_init) = Inr (b, a)
            \<and> counts_only_positive b (spec_window (fl (bT - 5)) bT (parsed_samples stod tc l r rows))
            \<and> counts_only_positive a (spec_window aT (fl (aT + 5)) (parsed_samples stod tc l r rows))"
    using summarise_counts by (simp add: extract_loop_windows[OF assms] absorb_init)
next
  assume "eventRow \<noteq> -1 \<and> event_time stod data eventRow tc = Inr t"
  then show "\<exists>out. calculatePupilAverages_noshook stod data tc l r eventRow = Inr out
               \<and> reported_positive out
                   (spec_window (fl (t - 5)) t (parsed_samples stod tc l r (drop 1 data)))
                   (spec_window (fl (t + fl 0.229)) (fl (fl (t + fl 0.229) + 5))
                      (parsed_samples stod tc l r (drop 1 data)))"
    using calculatePupilAverages_noshook_windows[OF assms, of eventRow stod data t]
      window_report_positive by simp
next
  assume "event_time stod data rowFor02 tc = Inr t0 \<and> event_time stod data rowForShook tc = Inr t1"
  then show "\<exists>out. calculatePupilAverages_shook stod data tc l r rowFor02 rowForShook = Inr out
               \<and> reported_positive out
                   (spec_window (fl (t0 - 5)) t0 (parsed_samples stod tc l r (drop 1 data)))
                   (spec_window t1 (fl (t1 + 5)) (parsed_samples stod tc l r (drop 1 data)))"
    using calculatePupilAverages_shook_windows[OF assms, of stod data rowFor02 t0 rowForShook t1]
      window_report_positive by simp
qed

theorem only_positive_values_count_witness:
  "(\<exists>b a. extract_loop stod_plain 0 2 3 2 (fl (2 + fl 0.229)) (drop 1 recording) (window_init, window_init)
             = Inr (b, a)
        \<and> leftvec b = [4, 4] \<and> leftcount b = 2 \<and> sumLeft b = 8 \<and> rowcount b = 3)
   \<and> (\<exists>out. calculatePupilAverages_noshook stod_plain recording 0 2 3 3 = Inr out
        \<and> dgt0 (out ! 1) \<and> out ! 1 = Fin 4)
   \<and> (\<exists>out. calculatePupilAverages_shook stod_plain recording 0 2 3 3 5 = Inr out
        \<and> dgt0 (out ! 11) \<and> out ! 11 = Fin 3)"
proof -
  have cols: "(1::int) \<le> 2" "(0::int) \<le> 3" "(0::int) \<le> 0" "(0::int) \<le> max 2 3" by simp_all
  note inst = only_positive_values_count[OF cols,
      of stod_plain 2 "fl (2 + fl 0.229)" "drop 1 recording" 3 recording 2 3 2 5 4]
  from inst obtain b a where
    l: "extract_loop stod_plain 0 2 3 2 (fl (2 + fl 0.229)) (drop 1 recording) (window_init, window_init)
          = Inr (b, a)"
    and cb: "counts_only_positive b
               (spec_window (fl (2 - 5)) 2 (parsed_samples stod_plain 0 2 3 (drop 1 recording)))"
    by blast
  from cb have "leftvec b = [4, 4] \<and> leftcount b = 2 \<and> sumLeft b = 8 \<and> rowcount b = 3"
    unfolding recording_windows by (simp add: counts_only_positive_def s_left_def)
  with l have p1: "\<exists>b a. extract_loop stod_plain 0 2 3 2 (fl (2 + fl 0.229)) (drop 1 recording)
        (window_init, window_init) = Inr (b, a)
        \<and> leftvec b = [4, 4] \<and> leftcount b = 2 \<and> sumLeft b = 8 \<and> rowcount b = 3" by blast
  from inst recording_event_times
  obtain out where o: "calculatePupilAverages_noshook stod_plain recording 0 2 3 3 = Inr out"
    and v: "reported_positive out
              (spec_window (fl (2 - 5)) 2 (parsed_samples stod_plain 0 2 3 (drop 1 recording)))
              (spec_window (fl (2 + fl 0.229)) (fl (fl (2 + fl 0.229) + 5))
                 (parsed_samples stod_plain 0 2 3 (drop 1 recording)))"
    by auto
  from v have "out ! 1 = Fin 4"
    unfolding recording_windows
    by (simp add: reported_positive_def positive_mean_def valid_values_def mean_of_def s_left_def)
  with o have p2: "\<exists>out. calculatePupilAverages_noshook stod_plain recording 0 2 3 3 = Inr out
        \<and> dgt0 (out ! 1) \<and> out ! 1 = Fin 4" by simp
  from inst recording_event_times
  obtain out' where o': "calculatePupilAverages_shook stod_plain recording 0 2 3 3 5 = Inr out'"
    and v': "reported_positive out'
              (spec_window (fl (2 - 5)) 2 (parsed_samples stod_plain 0 2 3 (drop 1 recording)))
              (spec_window 4 (fl (4 + 5)) (parsed_samples stod_plain 0 2 3 (drop 1 recording)))"
    by auto
  from v' have "out' ! 11 = Fin 3"
    unfolding recording_windows
    by (simp add: reported_positive_def positive_mean_def valid_values_def mean_of_def s_right_def)
  with o' have p3: "\<exists>out. calculatePupilAverages_shook stod_plain recording 0 2 3 3 5 = Inr out
        \<and> dgt0 (out ! 11) \<and> out ! 11 = Fin 3" by simp
  from p1 p2 p3 show ?thesis by blast
qed

text \<open>
  The recording cut off after the tagged row: its after window has no row, the
  rule \<open>0 \<ge> 0.5 * 0\<close> lets the means pass, and they are \<open>0.0 / 0\<close>, which is
  NaN and not above zero; \<open>main\<close> writes the left-eye line with it.
\<close>

theorem empty_window_mean_counterexample:
  "calculatePupilAverages_noshook stod_plain recording_cut 0 2 3 3 =
     Inr [Fin 10, Fin 4, Fin 2, Fin 0, Fin 3, Fin 3, Fin 2,
          NaN, NaN, Fin 0, Fin (-1), NaN, Fin 0, Fin 2]
   \<and> spec_window (fl (2 + fl 0.229)) (fl (fl (2 + fl 0.229) + 5))
        (parsed_samples stod_plain 0 2 3 (drop 1 recording_cut)) = []
   \<and> real (length (valid_values ([] :: real list))) \<ge> 0.5 * real (length ([] :: sample list))
   \<and> \<not> dgt0 NaN
   \<and> map_sum id (\<lambda>st. map pupilafter (leftpupil_txt st))
        (main_noshook stod_plain [(''00001.csv'', recording_cut)]) = Inr [NaN]"
  unfolding recording_cut_windows
  by (simp add: recording_cut_output recording_cut_facts(1,4,5) main_noshook_def
        process_file_noshook_def header_columns save_eyes_def stod_cells report_init_def
        valid_values_def Let_def)

section \<open>Properties of the per-file loop\<close>

subsection \<open>The standard deviation written to the right-eye line\<close>

text \<open>
  The last entry of the returned vector is computed from the before window of
  the right eye, so it always repeats entry 6.
\<close>

lemma last_entry_is_right_before_sd: "window_report b a ! 13 = window_report b a ! 6"
  by (simp add: window_report_nth)

lemma sample_stddev_examples:
  "sample_stddev [3, 3, 3] = 0" "sample_stddev [1, 3, 5] = 2" "sample_stddev [3, 3] = 0"
  by (simp_all add: sample_stddev_def bessel_variance_def)

lemma recording_interval_windows:
  "spec_window (2 - 5) 2 (parsed_samples stod_plain 0 2 3 (drop 1 recording))
     = [(0, 4, 1, 10), (1, -1, 3, 10), (2, 4, 5, 10)]"
  "spec_window (2 + 0.229) (2 + 0.229 + 5) (parsed_samples stod_plain 0 2 3 (drop 1 recording))
     = [(3, 4, 3, 12), (4, 4, 3, 12), (5, 4, 3, 12)]"
  "spec_window 4 (4 + 5) (parsed_samples stod_plain 0 2 3 (drop 1 recording))
     = [(4, 4, 3, 12), (5, 4, 3, 12)]"
  unfolding recording_samples by (simp_all add: spec_window_def s_time_def)

text \<open>
  C5.  The claim is that the \<open>stdAfter\<close> field of a right-eye line is the
  standard deviation of the right eye's after-window values.  On the example
  recording, in both programs, the right eye's values are 1, 3, 5 before the
  tag (standard deviation 2) and constantly 3 afterwards (standard deviation
  0); the line appended to \<open>rightpupil.txt\<close> carries 2 as \<open>aftersd\<close>, the value
  of the before window, while the left-eye line carries the left eye's
  after-window value 0.
\<close>

theorem right_eye_after_sd_is_before_sd:
  "map_sum id (\<lambda>st. map aftersd (rightpupil_txt st))
       (main_noshook stod_plain [(''00001.csv'', recording)]) = Inr [Fin 2]
   \<and> map_sum id (\<lambda>st. map beforesd (rightpupil_txt st))
       (main_noshook stod_plain [(''00001.csv'', recording)]) = Inr [Fin 2]
   \<and> map_sum id (\<lambda>st. map aftersd (leftpupil_txt st))
       (main_noshook stod_plain [(''00001.csv'', recording)]) = Inr [Fin 0]
   \<and> valid_values (map s_right (spec_window (2 - 5) 2
         (parsed_samples stod_plain 0 2 3 (drop 1 recording)))) = [1, 3, 5]
   \<and> sample_stddev [1, 3, 5] = 2
   \<and> valid_values (map s_right (spec_window (2 + 0.229) (2 + 0.229 + 5)
         (parsed_samples stod_plain 0 2 3 (drop 1 recording)))) = [3, 3, 3]
   \<and> sample_stddev [3, 3, 3] = 0
   \<and> map_sum id (\<lambda>st. map aftersd (rightpupil_txt st))
       (main_shook stod_plain [(''00001.csv'', recording)]) = Inr [Fin 2]
   \<and> valid_values (map s_right (spec_window 4 (4 + 5)
         (parsed_samples stod_plain 0 2 3 (drop 1 recording)))) = [3, 3]
   \<and> sample_stddev [3, 3] = 0"
  unfolding recording_interval_windows sample_stddev_examples
  by (simp add: main_noshook_def main_shook_def process_file_noshook_def process_file_shook_def
        recording_facts header_columns recording_events recording_noshook_output
        recording_shook_output save_eyes_def stod_cells report_init_def Let_def
        valid_values_def s_right_def)

subsection \<open>Subjects without an event marker\<close>

lemma save_eyes_keeps_tally:
  "save_eyes stod fileIndex datalist st = Inr st' \<Longrightarrow> missingEventIndices st' = missingEventIndices st"
  by (auto simp: save_eyes_def split: if_splits option.splits sum.splits)

lemma process_file_shook_keeps_tally:
  "process_file_shook stod file st = Inr st' \<Longrightarrow> missingEventIndices st' = missingEventIndices st"
  by (auto simp: process_file_shook_def Let_def split: if_splits sum.splits
        dest: save_eyes_keeps_tally)

lemma main_loop_shook_keeps_tally:
  "main_loop (process_file_shook stod) files st = Inr st' \<Longrightarrow>
   missingEventIndices st' = missingEventIndices st"
proof (induction files arbitrary: st)
  case Nil
  then show ?case by simp
next
  case (Cons f files)
  then show ?case
    by (auto split: sum.splits dest: process_file_shook_keeps_tally)
qed

lemma main_shook_tally_empty:
  "main_shook stod files = Inr st \<Longrightarrow> missing_event_section st = {}"
  unfolding main_shook_def missing_event_section_def
  by (drule main_loop_shook_keeps_tally) (simp add: report_init_def)

lemma process_file_noshook_missing_event:
  "data \<noteq> [] \<Longrightarrow> findEventRow data = -1 \<Longrightarrow>
   process_file_noshook stod (name, data) st
     = Inr (st\<lparr>missingEventIndices := insert (take 5 name) (missingEventIndices st)\<rparr>)"
  by (simp add: process_file_noshook_def Let_def)

lemma recording_no_shook_facts:
  "hd recording_no_shook = header_row" "recording_no_shook \<noteq> []"
  "findEventRows recording_no_shook 4 = (2, -1)"
  by (simp_all add: recording_no_shook_def header_row_def findEventRows_def)

lemma recording_no_tag_facts:
  "hd recording_no_tag = header_row" "recording_no_tag \<noteq> []"
  "findEventRow recording_no_tag = -1"
  by (simp_all add: recording_no_tag_def header_row_def findEventRow_def)

text \<open>
  C7.  The claim is that a subject whose event marker is missing gets no line
  in either summary file and is recorded in the missing-event set that the
  final report prints.  noshookpupil.cpp does so: the file without a tag ends
  in \<open>missingEventIndices\<close>.  shookpupil.cpp does not: for the file with the tag
  but no "shook" row it prints an error line, appends nothing, and leaves
  \<open>missingEventIndices\<close> empty, as it does on every run.
\<close>

theorem shook_missing_event_not_tallied:
  "main_shook stod_plain [(''00002.csv'', recording_no_shook)]
     = Inr (report_init\<lparr>console := [EventNotFound ''00002'']\<rparr>)
   \<and> missing_event_section (report_init\<lparr>console := [EventNotFound ''00002'']\<rparr>) = {}
   \<and> main_noshook stod_plain [(''00003.csv'', recording_no_tag)]
     = Inr (report_init\<lparr>missingEventIndices := {''00003''}\<rparr>)"
  by (simp add: main_noshook_def main_shook_def process_file_noshook_def process_file_shook_def
        recording_no_shook_facts recording_no_tag_facts header_columns report_init_def Let_def
        missing_event_section_def)

subsection \<open>Column lookup and the luminance column\<close>

lemma findPupilColumns_loop_absent:
  "\<forall>c\<in>set cs. \<not> contains (trim c) ''leftPupil'' \<Longrightarrow>
   fst (findPupilColumns_loop cs i (lc, rc)) = lc"
  "\<forall>c\<in>set cs. \<not> contains (trim c) ''rightPupil'' \<Longrightarrow>
   snd (findPupilColumns_loop cs i (lc, rc)) = rc"
  by (induction cs arbitrary: i lc rc) (simp_all add: Let_def)

lemma findPupilColumns_loop_range:
  "fst (findPupilColumns_loop cs i (lc, rc)) = lc
     \<or> (i \<le> fst (findPupilColumns_loop cs i (lc, rc))
         \<and> fst (findPupilColumns_loop cs i (lc, rc)) < i + int (length cs))"
  "snd (findPupilColumns_loop cs i (lc, rc)) = rc
     \<or> (i \<le> snd (findPupilColumns_loop cs i (lc, rc))
         \<and> snd (findPupilColumns_loop cs i (lc, rc)) < i + int (length cs))"
proof (induction cs arbitrary: i lc rc)
  case Nil
  {
    case 1 show ?case by simp
  next
    case 2 show ?case by simp
  }
next
  case (Cons c cs)
  {
    case 1
    show ?case
      using Cons.IH(1)[of "i + 1" "if contains (trim c) ''leftPupil'' then i else lc"
          "if contains (trim c) ''rightPupil'' then i else rc"]
      by (auto simp: Let_def split: if_splits)
  next
    case 2
    show ?case
      using Cons.IH(2)[of "i + 1" "if contains (trim c) ''leftPupil'' then i else lc"
          "if contains (trim c) ''rightPupil'' then i else rc"]
      by (auto simp: Let_def split: if_splits)
  }
qed

lemma findPupilColumns_range:
  "fst (findPupilColumns h) = -1 \<or> (0 \<le> fst (findPupilColumns h) \<and> fst (findPupilColumns h) < int (length h))"
  "snd (findPupilColumns h) = -1 \<or> (0 \<le> snd (findPupilColumns h) \<and> snd (findPupilColumns h) < int (length h))"
  using findPupilColumns_loop_range[of h 0 "-1" "-1"] by (simp_all add: findPupilColumns_def)

lemma extract_loop_in_range:
  assumes "1 \<le> l" and "0 \<le> r" and "0 \<le> tc" and "tc \<le> max l r"
  shows "extract_loop stod tc l r bT aT rows ws \<noteq> Inl e"
  by (simp add: extract_loop_windows[OF assms])

text \<open>
  C8, as amended.  \<open>findPupilColumns\<close> returns -1 for a column whose header
  marker is absent.  In shookpupil.cpp the caller skips a subject with a -1
  column before any extraction, with an error line.  The luminance column
  \<open>leftPupilCol - 1\<close> is not validated; with a left pupil column of at least 1
  and a right pupil column of at least 0 the extraction loop reads no cell
  outside its row.
\<close>

theorem column_lookup_and_guards:
  "((\<forall>c\<in>set headerRow. \<not> contains (trim c) ''leftPupil'') \<longrightarrow> fst (findPupilColumns headerRow) = -1)
   \<and> ((\<forall>c\<in>set headerRow. \<not> contains (trim c) ''rightPupil'') \<longrightarrow> snd (findPupilColumns headerRow) = -1)
   \<and> (data \<noteq> [] \<and> (fst (findPupilColumns (hd data)) = -1 \<or> snd (findPupilColumns (hd data)) = -1) \<longrightarrow>
        process_file_shook stod (name, data) st
          = Inr (st\<lparr>console := console st @ [PupilColumnNotFound (take 5 name)]\<rparr>))
   \<and> (1 \<le> l \<and> 0 \<le> r \<and> 0 \<le> tc \<and> tc \<le> max l r \<longrightarrow>
        (\<forall>e. extract_loop stod tc l r bT aT rows ws \<noteq> Inl e))"
proof (intro conjI impI allI)
  assume "\<forall>c\<in>set headerRow. \<not> contains (trim c) ''leftPupil''"
  then show "fst (findPupilColumns headerRow) = -1"
    unfolding findPupilColumns_def by (rule findPupilColumns_loop_absent(1))
next
  assume "\<forall>c\<in>set headerRow. \<not> contains (trim c) ''rightPupil''"
  then show "snd (findPupilColumns headerRow) = -1"
    unfolding findPupilColumns_def by (rule findPupilColumns_loop_absent(2))
next
  assume "data \<noteq> [] \<and> (fst (findPupilColumns (hd data)) = -1 \<or> snd (findPupilColumns (hd data)) = -1)"
  then show "process_file_shook stod (name, data) st
          = Inr (st\<lparr>console := console st @ [PupilColumnNotFound (take 5 name)]\<rparr>)"
    by (auto simp: process_file_shook_def Let_def)
next
  fix e
  assume "1 \<le> l \<and> 0 \<le> r \<and> 0 \<le> tc \<and> tc \<le> max l r"
  then show "extract_loop stod tc l r bT aT rows ws \<noteq> Inl e"
    using extract_loop_in_range by blast
qed

lemma recording_no_left_facts:
  "recording_no_left \<noteq> []"
  "\<forall>c\<in>set (hd recording_no_left). \<not> contains (trim c) ''leftPupil''"
  "\<forall>c\<in>set [''time'', ''leftPupil'']. \<not> contains (trim c) ''rightPupil''"
  by (simp_all add: recording_no_left_def trim_def isspace_def)

theorem column_lookup_and_guards_witness:
  "fst (findPupilColumns (hd recording_no_left)) = -1
   \<and> snd (findPupilColumns [''time'', ''leftPupil'']) = -1
   \<and> process_file_shook stod_plain (''00005.csv'', recording_no_left) report_init
        = Inr (report_init\<lparr>console := [PupilColumnNotFound ''00005'']\<rparr>)
   \<and> extract_loop stod_plain 0 2 3 2 4 (drop 1 recording) (window_init, window_init)
        \<noteq> Inl OutOfRange"
proof -
  have a: "fst (findPupilColumns (hd recording_no_left)) = -1"
    using column_lookup_and_guards[of "hd recording_no_left"] recording_no_left_facts(2) by blast
  have b: "snd (findPupilColumns [''time'', ''leftPupil'']) = -1"
    using column_lookup_and_guards[of "[''time'', ''leftPupil'']"] recording_no_left_facts(3)
    by blast
  have "process_file_shook stod_plain (''00005.csv'', recording_no_left) report_init
        = Inr (report_init\<lparr>console := console report_init @ [PupilColumnNotFound (take 5 ''00005.csv'')]\<rparr>)"
    using column_lookup_and_guards[of _ recording_no_left stod_plain "''00005.csv''" report_init]
      recording_no_left_facts(1) a by blast
  then have c: "process_file_shook stod_plain (''00005.csv'', recording_no_left) report_init
        = Inr (report_init\<lparr>console := [PupilColumnNotFound ''00005'']\<rparr>)"
    by (simp add: report_init_def)
  have d: "extract_loop stod_plain 0 2 3 2 4 (drop 1 recording) (window_init, window_init)
        \<noteq> Inl OutOfRange"
    using column_lookup_and_guards[of _ _ _ _ _ 2 3 0 2 4 "drop 1 recording"
        "(window_init, window_init)"] in_range_columns by blast
  from a b c d show ?thesis by blast
qed

text \<open>
  A recording whose first header cell is the left pupil column: both columns
  are found, \<open>leftPupilCol - 1\<close> is -1, and the first data row is read at index
  -1, in either program.
\<close>

lemma recording_left_first_facts:
  "hd recording_left_first = [''leftPupil'', ''rightPupil'', ''robotEvent'']"
  "recording_left_first \<noteq> []"
  "findPupilColumns [''leftPupil'', ''rightPupil'', ''robotEvent''] = (0, 1)"
  "eventColumn_loop [''leftPupil'', ''rightPupil'', ''robotEvent''] 0 = 2"
  "findEventRow recording_left_first = 1"
  "findEventRows recording_left_first 2 = (1, 2)"
  "event_time stod_plain recording_left_first 1 0 = Inr 2"
  "event_time stod_plain recording_left_first 2 0 = Inr 3"
  "recording_left_first ! 1 = [''2.0'', ''3.0'', ''0.2 seconds'']"
  "drop 1 recording_left_first = [[''2.0'', ''3.0'', ''0.2 seconds''], [''3.0'', ''3.0'', ''shook'']]"
  by (simp_all add: recording_left_first_def findPupilColumns_def trim_def isspace_def
        findEventRow_def findEventRows_def event_time_def at_index_def stod_cells)

lemma read_left_first_row:
  "read_row stod_plain 0 0 1 [''2.0'', ''3.0'', ''0.2 seconds''] = Inl OutOfRange"
  by (simp add: read_row_def at_index_def stod_cells)

lemma left_first_extraction:
  "calculatePupilAverages_shook stod_plain recording_left_first 0 0 1 1 2 = Inl OutOfRange"
  "calculatePupilAverages_noshook stod_plain recording_left_first 0 0 1 1 = Inl OutOfRange"
  unfolding calculatePupilAverages_shook_def calculatePupilAverages_noshook_def
    recording_left_first_facts(7,8,10)
  by (simp_all add: row_step_def read_left_first_row)

lemma left_first_header:
  "findPupilColumns (hd recording_left_first) = (0, 1)"
  "eventColumn_loop (hd recording_left_first) 0 = 2"
  by (simp_all only: recording_left_first_facts(1,3,4))

lemma left_first_process:
  "process_file_shook stod_plain (''00004.csv'', recording_left_first) report_init = Inl OutOfRange"
  "process_file_noshook stod_plain (''00004.csv'', recording_left_first) report_init = Inl OutOfRange"
  unfolding process_file_shook_def process_file_noshook_def Let_def fst_conv snd_conv
    left_first_header recording_left_first_facts(5,6) left_first_extraction
  by (simp_all add: recording_left_first_facts(2))

theorem negative_luminance_column_counterexample:
  "findPupilColumns (hd recording_left_first) = (0, 1)
   \<and> read_row stod_plain 0 0 1 (recording_left_first ! 1) = Inl OutOfRange
   \<and> main_shook stod_plain [(''00004.csv'', recording_left_first)] = Inl OutOfRange
   \<and> main_noshook stod_plain [(''00004.csv'', recording_left_first)] = Inl OutOfRange"
  unfolding left_first_header recording_left_first_facts(9) read_left_first_row
    main_shook_def main_noshook_def
  by (simp add: left_first_process)

end
